theory Spec2Isabelle
  imports Main
begin

section \<open>Strings\<close>

text \<open>
  The plugin works on JavaScript strings, which are sequences of UTF-16 code units, and
  every offset in the source counts code units. A document is modelled as a
  \<^typ>\<open>string\<close> whose characters are the code units themselves, so the model covers the
  documents whose code units are below 256. The regular expressions of the source are not
  in unicode mode: they too work on single code units.
\<close>

definition nl :: char where
  "nl = CHR 0x0A"

definition is_upper :: "char \<Rightarrow> bool" where
  \<comment> \<open>the class \<open>[A-Z]\<close>\<close>
  "is_upper c \<longleftrightarrow> c \<in> set ''ABCDEFGHIJKLMNOPQRSTUVWXYZ''"

definition is_digit :: "char \<Rightarrow> bool" where
  \<comment> \<open>the class \<open>\d\<close>, which is \<open>[0-9]\<close> outside unicode mode\<close>
  "is_digit c \<longleftrightarrow> c \<in> set ''0123456789''"

definition is_space :: "char \<Rightarrow> bool" where
  \<comment> \<open>the class \<open>\s\<close> below 256: tab, line feed, vertical tab, form feed, carriage
      return, space, no-break space; \<open>trim\<close> strips the same characters\<close>
  "is_space c \<longleftrightarrow>
     c \<in> set [CHR 0x09, CHR 0x0A, CHR 0x0B, CHR 0x0C, CHR 0x0D, CHR 0x20, CHR 0xA0]"

definition is_line_terminator :: "char \<Rightarrow> bool" where
  \<comment> \<open>what \<open>.\<close> refuses to match, below 256: line feed and carriage return\<close>
  "is_line_terminator c \<longleftrightarrow> c \<in> set [CHR 0x0A, CHR 0x0D]"

definition js_slice :: "string \<Rightarrow> nat \<Rightarrow> nat \<Rightarrow> string" where
  \<comment> \<open>\<open>s.slice(a, b)\<close> for indices that are not negative: both are clamped to the length\<close>
  "js_slice s a b = drop a (take b s)"

definition endsWith :: "string \<Rightarrow> string \<Rightarrow> bool" where
  "endsWith s x \<longleftrightarrow> length x \<le> length s \<and> drop (length s - length x) s = x"

fun js_includes :: "string \<Rightarrow> string \<Rightarrow> bool" where
  \<comment> \<open>\<open>s.includes(x)\<close>: \<open>x\<close> occurs somewhere in \<open>s\<close>\<close>
  "js_includes [] x = (x = [])"
| "js_includes (c # cs) x = (take (length x) (c # cs) = x \<or> js_includes cs x)"

fun split_nl :: "string \<Rightarrow> string list" where
  \<comment> \<open>\<open>s.split('\n')\<close>: never empty, the empty string gives one empty line\<close>
  "split_nl [] = [[]]"
| "split_nl (c # cs) =
     (if c = nl then [] # split_nl cs
      else (case split_nl cs of [] \<Rightarrow> [[c]] | l # ls \<Rightarrow> (c # l) # ls))"

fun join_nl :: "string list \<Rightarrow> string" where
  \<comment> \<open>\<open>lines.join('\n')\<close>\<close>
  "join_nl [] = []"
| "join_nl [l] = l"
| "join_nl (l # ls) = l @ nl # join_nl ls"

section \<open>The bare-reference pattern\<close>

text \<open>
  \<open>taskRegex = /@([A-Z]+-\d+)(?= )/g\<close>. A match at the head of \<open>s\<close> is an \<open>@\<close>, a
  run of capitals, a hyphen, a run of digits, and then a space that is looked at but not
  consumed. Both runs are the longest ones: after a shorter run of capitals the next
  character is a capital, not the hyphen, and after a shorter run of digits the next
  character is a digit, not the space, so backtracking never finds another match.
  The result is the captured task id and the text after the match.
\<close>

definition taskRegex_at :: "string \<Rightarrow> (string \<times> string) option" where
  "taskRegex_at s =
     (case s of
        [] \<Rightarrow> None
      | c # r \<Rightarrow>
          if c \<noteq> CHR ''@'' then None
          else let us = takeWhile is_upper r; r1 = dropWhile is_upper r in
            if us = [] then None
            else (case r1 of
                [] \<Rightarrow> None
              | d # r2 \<Rightarrow>
                  if d \<noteq> CHR ''-'' then None
                  else let ds = takeWhile is_digit r2; r3 = dropWhile is_digit r2 in
                    if ds = [] then None
                    else (case r3 of
                        [] \<Rightarrow> None
                      | e # _ \<Rightarrow>
                          if e = CHR '' '' then Some (us @ CHR ''-'' # ds, r3) else None)))"

lemma taskRegex_at_append:
  assumes "taskRegex_at s = Some (taskId, rest)"
  shows "s = CHR ''@'' # taskId @ rest"
proof -
  from assms obtain r where s: "s = CHR ''@'' # r"
    by (auto simp: taskRegex_at_def split: list.splits if_splits)
  define us where "us = takeWhile is_upper r"
  define r1 where "r1 = dropWhile is_upper r"
  have r: "r = us @ r1"
    by (simp add: us_def r1_def)
  from assms s obtain r2 where r1: "r1 = CHR ''-'' # r2"
    by (auto simp: taskRegex_at_def Let_def r1_def split: list.splits if_splits)
  define ds where "ds = takeWhile is_digit r2"
  define r3 where "r3 = dropWhile is_digit r2"
  have r2: "r2 = ds @ r3"
    by (simp add: ds_def r3_def)
  from assms s r1 have "taskId = us @ CHR ''-'' # ds" and "rest = r3"
    by (auto simp: taskRegex_at_def Let_def r1_def us_def ds_def r3_def
          split: list.splits if_splits)
  with s r r1 r2 show ?thesis
    by simp
qed

lemma taskRegex_at_length:
  "taskRegex_at s = Some (taskId, rest) \<Longrightarrow> length s = Suc (length taskId) + length rest"
  by (drule taskRegex_at_append) simp

text \<open>
  \<open>text.replace(taskRegex, callback)\<close>: the matches are found from left to right, each
  search starting where the last match ended; the callback gets the captured task id and
  the offset of the match in \<open>text\<close>, and what it returns is inserted as it is.
\<close>

function replace_taskRegex :: "(string \<Rightarrow> nat \<Rightarrow> string) \<Rightarrow> nat \<Rightarrow> string \<Rightarrow> string" where
  "replace_taskRegex f off [] = []"
| "replace_taskRegex f off (c # cs) =
     (case taskRegex_at (c # cs) of
        Some (taskId, rest) \<Rightarrow> f taskId off @ replace_taskRegex f (off + length taskId + 1) rest
      | None \<Rightarrow> c # replace_taskRegex f (off + 1) cs)"
  by pat_completeness auto
termination
  by (relation "measure (\<lambda>(f, off, s). length s)") (auto dest: taskRegex_at_length)

subsection \<open>The guards of the normalisation pass\<close>

text \<open>
  The second guard builds a regular expression from the task id and the configured base
  URL, \<open>new RegExp(`\\[${taskId}\\]\\(${this.settings.trackerBaseURL}${taskId}\\)`)\<close>.
  The base URL is spliced in as it is, so what it holds is read as a pattern: a dot
  stands for any character but a line terminator. The model reads a dot so and every
  other character of the base URL as itself, which is what the source does for a base
  URL with no other metacharacter (\<open>regex_plain\<close>, true of the default
  \<open>https://tracker.yandex.ru/\<close>). With another metacharacter in the base URL the
  source tests another pattern, or \<open>new RegExp\<close> throws; the model does not cover
  these base URLs, and every statement that depends on what the guard answers assumes
  \<open>regex_plain\<close>. A task id holds capitals, a hyphen and digits only.
\<close>

datatype atom = Lit char | AnyChar

fun atom_matches :: "atom \<Rightarrow> char \<Rightarrow> bool" where
  "atom_matches (Lit a) c = (a = c)"
| "atom_matches AnyChar c = (\<not> is_line_terminator c)"

fun atoms_match_at :: "atom list \<Rightarrow> string \<Rightarrow> bool" where
  \<comment> \<open>the pattern matches at the head of the string\<close>
  "atoms_match_at [] s = True"
| "atoms_match_at (a # as) [] = False"
| "atoms_match_at (a # as) (c # cs) = (atom_matches a c \<and> atoms_match_at as cs)"

fun regex_test :: "atom list \<Rightarrow> string \<Rightarrow> bool" where
  \<comment> \<open>\<open>pattern.test(s)\<close>: the pattern matches somewhere in \<open>s\<close>\<close>
  "regex_test p [] = atoms_match_at p []"
| "regex_test p (c # cs) = (atoms_match_at p (c # cs) \<or> regex_test p cs)"

definition regex_metachars :: string where
  \<comment> \<open>the metacharacters the model does not interpret\<close>
  "regex_metachars =
     [CHR 0x5C, CHR ''^'', CHR ''$'', CHR ''*'', CHR ''+'', CHR ''?'', CHR ''('', CHR '')'',
      CHR ''['', CHR '']'', CHR ''{'', CHR ''}'', CHR ''|'']"

definition regex_plain :: "string \<Rightarrow> bool" where
  "regex_plain base \<longleftrightarrow> list_all (\<lambda>c. c \<notin> set regex_metachars) base"

definition base_atoms :: "string \<Rightarrow> atom list" where
  "base_atoms base = map (\<lambda>c. if c = CHR ''.'' then AnyChar else Lit c) base"

definition urlPattern :: "string \<Rightarrow> string \<Rightarrow> atom list" where
  "urlPattern base taskId =
     Lit CHR ''['' # map Lit taskId @ [Lit CHR '']'', Lit CHR ''(''] @
     base_atoms base @ map Lit taskId @ [Lit CHR '')'']"

definition link :: "string \<Rightarrow> string \<Rightarrow> string" where
  \<comment> \<open>\<open>`[${taskId}](${this.settings.trackerBaseURL}${taskId})`\<close>\<close>
  "link base taskId = CHR ''['' # taskId @ '']('' @ base @ taskId @ '')''"

definition line_or_undefined :: "string list \<Rightarrow> nat \<Rightarrow> string" where
  \<comment> \<open>\<open>lines[i]\<close> where a string is expected: out of range it is \<open>undefined\<close>, which
      \<open>exec\<close> and \<open>test\<close> turn into the string \<open>undefined\<close>\<close>
  "line_or_undefined ls i = (if i < length ls then ls ! i else ''undefined'')"

definition normalise_callback :: "string \<Rightarrow> string \<Rightarrow> string \<Rightarrow> nat \<Rightarrow> string" where
  \<comment> \<open>the arrow function of lines 355 to 369; \<open>content\<close> is the text read at the start
      of the pass, \<open>offset\<close> the offset of the match in the text being rewritten;
      \<open>fullMatch\<close> is \<open>@\<close> and the task id\<close>
  "normalise_callback base content taskId offset =
     (if endsWith (js_slice content (offset - 3) offset) '']('' then CHR ''@'' # taskId
      else
        let lines = split_nl content;
            currentLineIndex = length (split_nl (js_slice content 0 offset)) - 1;
            currentLine = line_or_undefined lines currentLineIndex
        in if regex_test (urlPattern base taskId) currentLine then CHR ''@'' # taskId
           else link base taskId)"

definition normalise :: "string \<Rightarrow> string \<Rightarrow> string \<Rightarrow> string" where
  \<comment> \<open>\<open>updatedContent.replace(this.taskRegex, ...)\<close> of line 355\<close>
  "normalise base content updatedContent =
     replace_taskRegex (normalise_callback base content) 0 updatedContent"

definition is_taskId :: "string \<Rightarrow> bool" where
  \<comment> \<open>the strings the capture group \<open>[A-Z]+-\d+\<close> matches as a whole\<close>
  "is_taskId t \<longleftrightarrow>
     takeWhile is_upper t \<noteq> [] \<and>
     (case dropWhile is_upper t of
        [] \<Rightarrow> False
      | d # ds \<Rightarrow> d = CHR ''-'' \<and> ds \<noteq> [] \<and> list_all is_digit ds)"

section \<open>The new-task pattern\<close>

text \<open>
  \<open>newTaskRegex = /(.*?)\s*@([A-Z]+)(?= )/\<close>, run once with \<open>exec\<close> on the line of
  the cursor. The match is searched from each start position in turn. From a start
  position the lazy \<open>(.*?)\<close> takes no character first and one more at each failure, never
  a line terminator; after it \<open>\s*\<close> takes the whole run of white space (after a
  shorter run the next character is white space, not the \<open>@\<close>), then come the \<open>@\<close>,
  the whole run of capitals, and a space that is looked at but not consumed.
\<close>

text \<open>\<open>@([A-Z]+)(?= )\<close> at the head of \<open>s\<close>: the queue key and the text after it.\<close>

definition queueKey_at :: "string \<Rightarrow> (string \<times> string) option" where
  "queueKey_at s =
     (case s of
        [] \<Rightarrow> None
      | c # r \<Rightarrow>
          if c \<noteq> CHR ''@'' then None
          else let us = takeWhile is_upper r; r1 = dropWhile is_upper r in
            if us = [] then None
            else (case r1 of
                [] \<Rightarrow> None
              | e # _ \<Rightarrow> if e = CHR '' '' then Some (us, r1) else None))"

text \<open>\<open>\s*@([A-Z]+)(?= )\<close> at the head of \<open>s\<close>: the white space, the queue key, the rest.\<close>

definition spaced_queueKey_at :: "string \<Rightarrow> (string \<times> string \<times> string) option" where
  "spaced_queueKey_at s =
     (case queueKey_at (dropWhile is_space s) of
        None \<Rightarrow> None
      | Some (queueKey, rest) \<Rightarrow> Some (takeWhile is_space s, queueKey, rest))"

text \<open>
  The lazy capture from one start position: \<open>acc\<close> is what \<open>(.*?)\<close> has taken so far.
\<close>

fun lazy_prefix :: "string \<Rightarrow> string \<Rightarrow> (string \<times> string \<times> string \<times> string) option" where
  "lazy_prefix acc [] =
     (case spaced_queueKey_at [] of
        Some (ws, queueKey, rest) \<Rightarrow> Some (acc, ws, queueKey, rest)
      | None \<Rightarrow> None)"
| "lazy_prefix acc (c # cs) =
     (case spaced_queueKey_at (c # cs) of
        Some (ws, queueKey, rest) \<Rightarrow> Some (acc, ws, queueKey, rest)
      | None \<Rightarrow> if is_line_terminator c then None else lazy_prefix (acc @ [c]) cs)"

text \<open>
  \<open>this.newTaskRegex.exec(currentLine)\<close>: the first start position with a match gives
  \<open>[fullMatch, taskSummary, queueKey]\<close>; \<open>None\<close> is \<open>null\<close>.
\<close>

fun newTaskRegex_exec :: "string \<Rightarrow> (string \<times> string \<times> string) option" where
  "newTaskRegex_exec [] =
     (case lazy_prefix [] [] of
        Some (taskSummary, ws, queueKey, rest) \<Rightarrow>
          Some (taskSummary @ ws @ CHR ''@'' # queueKey, taskSummary, queueKey)
      | None \<Rightarrow> None)"
| "newTaskRegex_exec (c # cs) =
     (case lazy_prefix [] (c # cs) of
        Some (taskSummary, ws, queueKey, rest) \<Rightarrow>
          Some (taskSummary @ ws @ CHR ''@'' # queueKey, taskSummary, queueKey)
      | None \<Rightarrow> newTaskRegex_exec cs)"

section \<open>The sanitizer\<close>

text \<open>
  \<open>s.replace(regex, replacement)\<close> for a global regular expression: \<open>m\<close> says whether
  the expression matches at the head of a string, and then what replaces the match and
  how many characters the match holds. The search goes on behind the match; behind an
  empty match it moves one character on.
\<close>

function replace_global :: "(string \<Rightarrow> (string \<times> nat) option) \<Rightarrow> string \<Rightarrow> string" where
  "replace_global m [] = (case m [] of Some (out, n) \<Rightarrow> out | None \<Rightarrow> [])"
| "replace_global m (c # cs) =
     (case m (c # cs) of
        Some (out, n) \<Rightarrow>
          if n = 0 then out @ c # replace_global m cs
          else out @ replace_global m (drop (n - 1) cs)
      | None \<Rightarrow> c # replace_global m cs)"
  by pat_completeness auto
termination
  by (relation "measure (\<lambda>(m, s). length s)") auto

text \<open>
  \<open>/[*_]{1,3}([^*_]+)[*_]{1,3}/g\<close> replaced by \<open>$1\<close>. At a run of more than three
  markers there is no match: the opening takes three at most and the next character must
  not be a marker. The inner text is the whole run of other characters, and the closing
  takes three markers at most.
\<close>

definition is_marker :: "char \<Rightarrow> bool" where
  "is_marker c \<longleftrightarrow> c = CHR ''*'' \<or> c = CHR ''_''"

definition emphasis_at :: "string \<Rightarrow> (string \<times> nat) option" where
  "emphasis_at s =
     (let opening = takeWhile is_marker s; r = dropWhile is_marker s in
      if opening = [] \<or> 3 < length opening then None
      else let inner = takeWhile (\<lambda>c. \<not> is_marker c) r;
               r1 = dropWhile (\<lambda>c. \<not> is_marker c) r in
        if inner = [] then None
        else let closing = min 3 (length (takeWhile is_marker r1)) in
          if closing = 0 then None
          else Some (inner, length opening + length inner + closing))"

text \<open>\<open>/`([^`]+)`/g\<close> replaced by \<open>$1\<close>.\<close>

definition code_at :: "string \<Rightarrow> (string \<times> nat) option" where
  "code_at s =
     (case s of
        [] \<Rightarrow> None
      | c # r \<Rightarrow>
          if c \<noteq> CHR 0x60 then None
          else let inner = takeWhile (\<lambda>c. c \<noteq> CHR 0x60) r in
            if inner = [] then None
            else (case dropWhile (\<lambda>c. c \<noteq> CHR 0x60) r of
                [] \<Rightarrow> None
              | _ # _ \<Rightarrow> Some (inner, length inner + 2)))"

text \<open>\<open>/\[([^\]]+)\]\([^)]+\)/g\<close> replaced by \<open>$1\<close>.\<close>

definition mdlink_at :: "string \<Rightarrow> (string \<times> nat) option" where
  "mdlink_at s =
     (case s of
        [] \<Rightarrow> None
      | c # r \<Rightarrow>
          if c \<noteq> CHR ''['' then None
          else let txt = takeWhile (\<lambda>c. c \<noteq> CHR '']'') r in
            if txt = [] then None
            else (case dropWhile (\<lambda>c. c \<noteq> CHR '']'') r of
                _ # p # r1 \<Rightarrow>
                  if p \<noteq> CHR ''('' then None
                  else let url = takeWhile (\<lambda>c. c \<noteq> CHR '')'') r1 in
                    if url = [] then None
                    else (case dropWhile (\<lambda>c. c \<noteq> CHR '')'') r1 of
                        [] \<Rightarrow> None
                      | _ # _ \<Rightarrow> Some (txt, length txt + length url + 4))
              | _ \<Rightarrow> None))"

text \<open>\<open>/<[^>]+>/g\<close> replaced by the empty string.\<close>

definition tag_at :: "string \<Rightarrow> (string \<times> nat) option" where
  "tag_at s =
     (case s of
        [] \<Rightarrow> None
      | c # r \<Rightarrow>
          if c \<noteq> CHR ''<'' then None
          else let inner = takeWhile (\<lambda>c. c \<noteq> CHR ''>'') r in
            if inner = [] then None
            else (case dropWhile (\<lambda>c. c \<noteq> CHR ''>'') r of
                [] \<Rightarrow> None
              | _ # _ \<Rightarrow> Some ([], length inner + 2)))"

definition strip_spaces1 :: "string \<Rightarrow> string option" where
  \<comment> \<open>\<open>\s+\<close> at the head\<close>
  "strip_spaces1 s = (if takeWhile is_space s = [] then None else Some (dropWhile is_space s))"

text \<open>\<open>/^\d+\.\s+/\<close>, \<open>/^[-*+]\s+/\<close> and \<open>/^>\s+/\<close>, each replaced by the empty string.\<close>

definition strip_ordered :: "string \<Rightarrow> string" where
  "strip_ordered s =
     (if takeWhile is_digit s = [] then s
      else (case dropWhile is_digit s of
          [] \<Rightarrow> s
        | d # r \<Rightarrow>
            if d \<noteq> CHR ''.'' then s
            else (case strip_spaces1 r of None \<Rightarrow> s | Some r1 \<Rightarrow> r1)))"

definition strip_bullet :: "string \<Rightarrow> string" where
  "strip_bullet s =
     (case s of
        [] \<Rightarrow> s
      | c # r \<Rightarrow>
          if c \<notin> set ''-*+'' then s
          else (case strip_spaces1 r of None \<Rightarrow> s | Some r1 \<Rightarrow> r1))"

definition strip_quote :: "string \<Rightarrow> string" where
  "strip_quote s =
     (case s of
        [] \<Rightarrow> s
      | c # r \<Rightarrow>
          if c \<noteq> CHR ''>'' then s
          else (case strip_spaces1 r of None \<Rightarrow> s | Some r1 \<Rightarrow> r1))"

definition trim :: "string \<Rightarrow> string" where
  "trim s = rev (dropWhile is_space (rev (dropWhile is_space s)))"

definition cleanMarkdown :: "string \<Rightarrow> string" where
  "cleanMarkdown text =
     trim (replace_global tag_at (strip_quote (replace_global mdlink_at
       (replace_global code_at (replace_global emphasis_at
         (strip_bullet (strip_ordered text)))))))"

section \<open>Replacing a string by a string\<close>

text \<open>
  \<open>s.replace(pattern, replacement)\<close> with two strings replaces the first occurrence of
  \<open>pattern\<close>, and reads the replacement as a template: \<open>$$\<close> stands for a dollar,
  \<open>$&\<close> for the matched text, \<open>$`\<close> for the text before the match and \<open>$'\<close> for
  the text after it. With a string pattern there are no groups, so a dollar before
  anything else stands for itself.
\<close>

fun GetSubstitution :: "string \<Rightarrow> string \<Rightarrow> string \<Rightarrow> string \<Rightarrow> string" where
  "GetSubstitution matched front back [] = []"
| "GetSubstitution matched front back [c] = [c]"
| "GetSubstitution matched front back (c # d # r) =
     (if c \<noteq> CHR ''$'' then c # GetSubstitution matched front back (d # r)
      else if d = CHR ''$'' then CHR ''$'' # GetSubstitution matched front back r
      else if d = CHR ''&'' then matched @ GetSubstitution matched front back r
      else if d = CHR 0x60 then front @ GetSubstitution matched front back r
      else if d = CHR 0x27 then back @ GetSubstitution matched front back r
      else c # GetSubstitution matched front back (d # r))"

fun find_first :: "string \<Rightarrow> string \<Rightarrow> string \<Rightarrow> (string \<times> string) option" where
  "find_first front [] pat = (if pat = [] then Some (front, []) else None)"
| "find_first front (c # cs) pat =
     (if take (length pat) (c # cs) = pat then Some (front, drop (length pat) (c # cs))
      else find_first (front @ [c]) cs pat)"

definition replace_string :: "string \<Rightarrow> string \<Rightarrow> string \<Rightarrow> string" where
  "replace_string s pat replacement =
     (case find_first [] s pat of
        None \<Rightarrow> s
      | Some (front, back) \<Rightarrow> front @ GetSubstitution pat front back replacement @ back)"

section \<open>The remote call\<close>

text \<open>
  A JSON value as \<open>JSON.parse\<close> gives it; an object lists each of its keys once. A
  number is kept as the string JavaScript prints for it (zero prints as \<open>0\<close>), which is
  all the plugin looks at: whether the value is truthy, and the text it gives inside a
  template string.
\<close>

datatype json =
    JNull | JBool bool | JNum string | JStr string | JArr "json list" | JObj "(string \<times> json) list"

fun truthy :: "json \<Rightarrow> bool" where
  "truthy JNull = False"
| "truthy (JBool b) = b"
| "truthy (JNum r) = (r \<noteq> ''0'')"
| "truthy (JStr s) = (s \<noteq> [])"
| "truthy (JArr xs) = True"
| "truthy (JObj kvs) = True"

text \<open>
  \<open>value.key\<close> on a truthy value: only an object can have the property; on a string, a
  number, a boolean or an array it is \<open>undefined\<close>, here \<open>None\<close>.
\<close>

fun property :: "json \<Rightarrow> string \<Rightarrow> json option" where
  "property (JObj kvs) k = map_of kvs k"
| "property j k = None"

text \<open>
  The text a value gives inside a template string. An array gives its elements joined by
  commas, \<open>null\<close> among them giving nothing.
\<close>

fun intercalate :: "string \<Rightarrow> string list \<Rightarrow> string" where
  "intercalate sep [] = []"
| "intercalate sep [x] = x"
| "intercalate sep (x # xs) = x @ sep @ intercalate sep xs"

fun ToString :: "json \<Rightarrow> string" where
  "ToString JNull = ''null''"
| "ToString (JBool b) = (if b then ''true'' else ''false'')"
| "ToString (JNum r) = r"
| "ToString (JStr s) = s"
| "ToString (JArr xs) = intercalate '','' (map (\<lambda>x. if x = JNull then [] else ToString x) xs)"
| "ToString (JObj kvs) = ''[object Object]''"

text \<open>The decimal digits of a status code, for the error message.\<close>

definition digit_char :: "nat \<Rightarrow> char" where
  "digit_char n = ''0123456789'' ! (n mod 10)"

function show_nat :: "nat \<Rightarrow> string" where
  "show_nat n = (if n < 10 then [digit_char n] else show_nat (n div 10) @ [digit_char n])"
  by pat_completeness auto
termination
  by (relation "measure id") auto

declare show_nat.simps [simp del]

text \<open>
  What a \<open>throw\<close> or a rejected promise carries. JavaScript lets any value be thrown;
  the \<open>catch\<close> block of \<open>createTask\<close> tells an \<open>Error\<close> (which has a message)
  from any other value with \<open>error instanceof Error\<close>, and looks at nothing else of it.
\<close>

datatype thrown = Error string | NotAnError

text \<open>
  What \<open>createTask\<close> gets from \<open>requestUrl\<close>: an exception (raised by the
  transport, or earlier in the \<open>try\<close> block while the request is built), or a response
  with its status and its body; reading \<open>response.json\<close> of a body that is not JSON
  raises an \<open>Error\<close>, here with its message. What the request holds is not modelled.
\<close>

datatype body = Json json | NotJson string

datatype http_outcome = Threw thrown | Responded nat body

definition invalid_response :: thrown where
  "invalid_response = Error ''Invalid API response: missing task key''"

text \<open>
  \<open>Array.isArray(response.json) ? response.json[0] : response.json\<close>; \<open>None\<close> is
  \<open>undefined\<close>, the first element of an empty array.
\<close>

definition responseData :: "json \<Rightarrow> json option" where
  "responseData j =
     (case j of
        JArr xs \<Rightarrow> (case xs of [] \<Rightarrow> None | x # _ \<Rightarrow> Some x)
      | _ \<Rightarrow> Some j)"

text \<open>
  The \<open>try\<close> block of \<open>createTask\<close> from line 245 on: what it returns (\<open>Inr\<close>) or
  throws (\<open>Inl\<close>). The two \<open>throw\<close> statements of the block raise an \<open>Error\<close>.
\<close>

definition createTask_try :: "http_outcome \<Rightarrow> thrown + json" where
  "createTask_try outcome =
     (case outcome of
        Threw e \<Rightarrow> Inl e
      | Responded status b \<Rightarrow>
          if status \<noteq> 201 then Inl (Error (''API request failed: '' @ show_nat status))
          else (case b of
              NotJson msg \<Rightarrow> Inl (Error msg)
            | Json j \<Rightarrow>
                (case responseData j of
                    None \<Rightarrow> Inl invalid_response
                  | Some d \<Rightarrow>
                      if \<not> truthy d then Inl invalid_response
                      else (case property d ''key'' of
                          None \<Rightarrow> Inl invalid_response
                        | Some k \<Rightarrow> if truthy k then Inr k else Inl invalid_response))))"

text \<open>
  \<open>createTask\<close> with its \<open>catch\<close> block (lines 268 to 274): the result, and the
  notices shown. What was thrown is thrown again; the notice is shown only when it is an
  \<open>Error\<close>.
\<close>

definition createTask :: "http_outcome \<Rightarrow> (thrown + json) \<times> string list" where
  "createTask outcome =
     (case createTask_try outcome of
        Inl (Error msg) \<Rightarrow> (Inl (Error msg), [''Failed to create task: '' @ msg])
      | Inl NotAnError \<Rightarrow> (Inl NotAnError, [])
      | Inr k \<Rightarrow> (Inr k, []))"

section \<open>The controller\<close>

text \<open>
  \<open>processText\<close> is an async function: it runs until it waits for the confirmation
  modal, then until it waits for \<open>createTask\<close>, then to its end, and between these
  pieces the host delivers other events. The state holds the plugin's lock, the
  editor's document and cursor, the passes that are waiting, and what the plugin has
  shown and written so far.
\<close>

record settings =
  trackerBaseURL :: string
  apiToken :: string
  orgId :: string
  defaultDescription :: string
  defaultAssignees :: "string list"

record TaskCreationData =
  confirmed :: bool
  summary :: string
  description :: string
  deadline :: string
  tags :: "string list"
  assignee :: string

record position =
  pos_line :: nat
  pos_ch :: nat

datatype editor_call = SetValue string | SetCursor position

text \<open>The local variables of a pass of \<open>processText\<close> that is waiting.\<close>

record pass =
  pass_cursor :: position
  pass_content :: string
  pass_lines :: "string list"
  pass_currentLine :: string
  pass_fullMatch :: string
  pass_taskSummary :: string
  pass_queueKey :: string

datatype suspended = AwaitConfirmation pass | AwaitCreation pass

record state =
  plugin_settings :: settings
  isProcessing :: bool
  doc :: string
  cursor :: position
  pending :: "suspended list"
  modals :: "(string \<times> string) list"
  notices :: "string list"
  editor_calls :: "editor_call list"

text \<open>
  Lines 354 to 377: the normalisation of the updated text against the text read at the
  start of the pass, the write back when the text has changed, and the release of the
  lock.
\<close>

definition finish_pass :: "position \<Rightarrow> string \<Rightarrow> string \<Rightarrow> state \<Rightarrow> state" where
  "finish_pass cursor0 content updatedContent st =
     (let updatedContent' = normalise (trackerBaseURL (plugin_settings st)) content updatedContent;
          st' = (if content \<noteq> updatedContent'
                 then st\<lparr>doc := updatedContent', cursor := cursor0,
                        editor_calls := editor_calls st @ [SetValue updatedContent', SetCursor cursor0]\<rparr>
                 else st)
      in st'\<lparr>isProcessing := False\<rparr>)"

text \<open>\<open>processText\<close> from its call to the first \<open>await\<close>, or to its end.\<close>

definition processText :: "state \<Rightarrow> state" where
  "processText st =
     (if isProcessing st then st
      else
        let st1 = st\<lparr>isProcessing := True\<rparr>;
            cursor0 = cursor st;
            content = doc st;
            lines = split_nl content;
            currentLine = line_or_undefined lines (pos_line cursor0)
        in (case newTaskRegex_exec currentLine of
            None \<Rightarrow> finish_pass cursor0 content content st1
          | Some (fullMatch, taskSummary, queueKey) \<Rightarrow>
              if js_includes currentLine '']('' then finish_pass cursor0 content content st1
              else if apiToken (plugin_settings st) \<noteq> [] \<and> orgId (plugin_settings st) \<noteq> [] then
                let cleanSummary = cleanMarkdown taskSummary;
                    summary0 = (if trim cleanSummary = [] then ''New task'' else trim cleanSummary);
                    p = \<lparr>pass_cursor = cursor0, pass_content = content, pass_lines = lines,
                         pass_currentLine = currentLine, pass_fullMatch = fullMatch,
                         pass_taskSummary = taskSummary, pass_queueKey = queueKey\<rparr>
                in st1\<lparr>modals := modals st1 @ [(summary0, queueKey)],
                       pending := pending st1 @ [AwaitConfirmation p]\<rparr>
              else st1\<lparr>notices := notices st1 @
                         [''Please configure API Token and Organization ID in settings''],
                       isProcessing := False\<rparr>))"

text \<open>The list without its element at place \<open>i\<close>.\<close>

definition remove_nth :: "nat \<Rightarrow> 'a list \<Rightarrow> 'a list" where
  "remove_nth i xs = take i xs @ drop (Suc i) xs"

text \<open>
  \<open>processText\<close> from the result of the modal (lines 320 to 326) to the \<open>await\<close> of
  \<open>createTask\<close>; \<open>i\<close> is the place of the pass among the waiting ones.
\<close>

definition after_confirmation :: "nat \<Rightarrow> pass \<Rightarrow> TaskCreationData \<Rightarrow> state \<Rightarrow> state" where
  "after_confirmation i p result st =
     (if \<not> confirmed result
      then st\<lparr>pending := remove_nth i (pending st), isProcessing := False\<rparr>
      else st\<lparr>pending := (pending st)[i := AwaitCreation p]\<rparr>)"

text \<open>\<open>processText\<close> from the outcome of \<open>createTask\<close> (lines 326 to 346) to its end.\<close>

definition after_creation :: "nat \<Rightarrow> pass \<Rightarrow> http_outcome \<Rightarrow> state \<Rightarrow> state" where
  "after_creation i p outcome st =
     (let st1 = st\<lparr>pending := remove_nth i (pending st)\<rparr> in
      case createTask outcome of
        (Inl e, ns) \<Rightarrow> st1\<lparr>notices := notices st1 @ ns, isProcessing := False\<rparr>
      | (Inr k, ns) \<Rightarrow>
          let taskId = ToString k;
              base = trackerBaseURL (plugin_settings st);
              newLine = replace_string (pass_currentLine p) (pass_fullMatch p)
                ((if pass_taskSummary p \<noteq> [] then pass_taskSummary p @ '' '' else []) @
                 link base taskId);
              lines = (pass_lines p)[pos_line (pass_cursor p) := newLine];
              updatedContent = join_nl lines;
              st2 = st1\<lparr>notices := notices st1 @ ns @ [''Task '' @ taskId @ '' created successfully!'']\<rparr>
          in finish_pass (pass_cursor p) (pass_content p) updatedContent st2)"

text \<open>
  The handler of \<open>editor-change\<close> (lines 194 to 202). The host keeps the cursor inside
  the document; \<open>charAt\<close> out of range is the empty string.
\<close>

definition getLine :: "string \<Rightarrow> nat \<Rightarrow> string" where
  "getLine d n = (let ls = split_nl d in if n < length ls then ls ! n else [])"

definition charAt :: "string \<Rightarrow> nat \<Rightarrow> string" where
  "charAt s i = (if i < length s then [s ! i] else [])"

definition charBeforeCursor :: "string \<Rightarrow> position \<Rightarrow> string" where
  "charBeforeCursor d cur =
     (if 0 < pos_ch cur then charAt (getLine d (pos_line cur)) (pos_ch cur - 1) else [])"

definition editor_change :: "state \<Rightarrow> state" where
  "editor_change st =
     (if \<not> isProcessing st \<and> charBeforeCursor (doc st) (cursor st) = '' ''
      then processText st else st)"

text \<open>
  The events: the user edits the document (the host then calls the handler), the user
  runs the command \<open>convert-tracker-links\<close>, the modal of a waiting pass gives its
  result, the remote call of a waiting pass ends.
\<close>

datatype event =
    EditorChange string position
  | Command
  | Confirmation nat TaskCreationData
  | Creation nat http_outcome

fun step :: "event \<Rightarrow> state \<Rightarrow> state" where
  "step (EditorChange d c) st = editor_change (st\<lparr>doc := d, cursor := c\<rparr>)"
| "step Command st = processText st"
| "step (Confirmation i result) st =
     (if i < length (pending st)
      then (case pending st ! i of
          AwaitConfirmation p \<Rightarrow> after_confirmation i p result st
        | AwaitCreation p \<Rightarrow> st)
      else st)"
| "step (Creation i outcome) st =
     (if i < length (pending st)
      then (case pending st ! i of
          AwaitConfirmation p \<Rightarrow> st
        | AwaitCreation p \<Rightarrow> after_creation i p outcome st)
      else st)"

fun run :: "event list \<Rightarrow> state \<Rightarrow> state" where
  "run [] st = st"
| "run (e # es) st = run es (step e st)"

section \<open>Properties of the bare-reference scan\<close>

declare replace_taskRegex.simps(2) [simp del]

text \<open>
  A character that is neither a capital, a digit, a hyphen nor a space can stand neither
  inside a match nor behind it, so the scan of a text splits at every such character.
\<close>

definition is_cut :: "char \<Rightarrow> bool" where
  "is_cut c \<longleftrightarrow> \<not> is_upper c \<and> \<not> is_digit c \<and> c \<noteq> CHR ''-'' \<and> c \<noteq> CHR '' ''"

lemma replace_taskRegex_None [simp]:
  "taskRegex_at (c # cs) = None \<Longrightarrow>
     replace_taskRegex f off (c # cs) = c # replace_taskRegex f (Suc off) cs"
  by (simp add: replace_taskRegex.simps(2))

lemma replace_taskRegex_Some [simp]:
  "taskRegex_at s = Some (t, r) \<Longrightarrow>
     replace_taskRegex f off s = f t off @ replace_taskRegex f (Suc (off + length t)) r"
  by (cases s) (simp_all add: replace_taskRegex.simps(2) taskRegex_at_def)

lemma takeWhile_cut: "\<not> P c \<Longrightarrow> takeWhile P (xs @ c # y) = takeWhile P xs"
  by (induction xs) auto

lemma dropWhile_cut: "\<not> P c \<Longrightarrow> dropWhile P (xs @ c # y) = dropWhile P xs @ c # y"
  by (induction xs) auto

lemma taskRegex_at_cut:
  assumes "is_cut c" and "xs \<noteq> []"
  shows "taskRegex_at (xs @ c # y) =
         (case taskRegex_at xs of None \<Rightarrow> None | Some (t, r) \<Rightarrow> Some (t, r @ c # y))"
  using assms
  by (auto simp: taskRegex_at_def is_cut_def takeWhile_cut dropWhile_cut Let_def
        split: list.splits)

lemma replace_taskRegex_cut:
  "is_cut c \<Longrightarrow> replace_taskRegex f off (xs @ c # y) =
     replace_taskRegex f off xs @ replace_taskRegex f (off + length xs) (c # y)"
proof (induction f off xs rule: replace_taskRegex.induct)
  case (1 f off)
  then show ?case by simp
next
  case (2 f off a as)
  show ?case
  proof (cases "taskRegex_at (a # as)")
    case None
    with 2 have "taskRegex_at (a # as @ c # y) = None"
      using taskRegex_at_cut [of c "a # as" y] by simp
    with None 2 show ?thesis by simp
  next
    case (Some p)
    obtain t r where p: "p = (t, r)" by (cases p)
    from Some p have len: "length as = length t + length r"
      by (auto dest: taskRegex_at_length)
    from Some p 2 have m: "taskRegex_at (a # as @ c # y) = Some (t, r @ c # y)"
      using taskRegex_at_cut [of c "a # as" y] by simp
    from 2 Some p have "replace_taskRegex f (off + length t + 1) (r @ c # y) =
        replace_taskRegex f (off + length t + 1) r @
        replace_taskRegex f (off + length t + 1 + length r) (c # y)"
      by simp
    with Some p m len show ?thesis
      by (simp add: add.assoc)
  qed
qed


lemma taskRegex_at_taskId:
  assumes "is_taskId t"
  shows "taskRegex_at (CHR ''@'' # t @ CHR '' '' # r) = Some (t, CHR '' '' # r)"
proof -
  define us where "us = takeWhile is_upper t"
  from assms obtain ds where d: "dropWhile is_upper t = CHR ''-'' # ds"
    and ds: "ds \<noteq> []" "list_all is_digit ds" and us: "us \<noteq> []"
    by (auto simp: is_taskId_def us_def split: list.splits)
  have t: "t = us @ CHR ''-'' # ds"
    using d by (metis takeWhile_dropWhile_id us_def)
  have sp: "\<not> is_upper CHR '' ''" "\<not> is_digit CHR '' ''"
    by (simp_all add: is_upper_def is_digit_def)
  have 1: "takeWhile is_upper (t @ CHR '' '' # r) = us"
    by (simp add: takeWhile_cut sp us_def)
  have 2: "dropWhile is_upper (t @ CHR '' '' # r) = CHR ''-'' # ds @ CHR '' '' # r"
    by (simp add: dropWhile_cut sp d)
  have 3: "takeWhile is_digit (ds @ CHR '' '' # r) = ds"
    using ds(2) by (simp add: takeWhile_cut sp list_all_iff)
  have 4: "dropWhile is_digit (ds @ CHR '' '' # r) = CHR '' '' # r"
    using ds(2) by (simp add: dropWhile_cut sp list_all_iff)
  show ?thesis
    using us ds(1) by (simp add: taskRegex_at_def 1 2 3 4 t [symmetric])
qed

lemma split_nl_not_Nil [simp]: "split_nl s \<noteq> []"
  by (induction s) (auto split: list.splits)









lemma is_cut_at: "is_cut CHR ''@''"
  by (simp add: is_cut_def is_upper_def is_digit_def)

section \<open>Properties of the new-task pattern\<close>

lemma queueKey_at_key:
  assumes "key \<noteq> []" and "list_all is_upper key"
  shows "queueKey_at (CHR ''@'' # key @ CHR '' '' # post) = Some (key, CHR '' '' # post)"
proof -
  have sp: "\<not> is_upper CHR '' ''"
    by (simp add: is_upper_def)
  have 1: "takeWhile is_upper (key @ CHR '' '' # post) = key"
    using assms(2) by (simp add: takeWhile_cut sp list_all_iff)
  have 2: "dropWhile is_upper (key @ CHR '' '' # post) = CHR '' '' # post"
    using assms(2) by (simp add: dropWhile_cut sp list_all_iff)
  show ?thesis
    using assms(1) by (simp add: queueKey_at_def 1 2)
qed

lemma spaced_queueKey_at_key:
  assumes "list_all is_space ws" and "key \<noteq> []" and "list_all is_upper key"
  shows "spaced_queueKey_at (ws @ CHR ''@'' # key @ CHR '' '' # post) =
    Some (ws, key, CHR '' '' # post)"
proof -
  have at: "\<not> is_space CHR ''@''"
    by (simp add: is_space_def)
  have 1: "takeWhile is_space (ws @ CHR ''@'' # key @ CHR '' '' # post) = ws"
    using assms(1) by (simp add: takeWhile_cut at list_all_iff)
  have 2: "dropWhile is_space (ws @ CHR ''@'' # key @ CHR '' '' # post) =
      CHR ''@'' # key @ CHR '' '' # post"
    using assms(1) by (simp add: dropWhile_cut at list_all_iff)
  show ?thesis
    by (simp add: spaced_queueKey_at_def 1 2 queueKey_at_key [OF assms(2,3)])
qed

lemma lazy_prefix_first:
  assumes "spaced_queueKey_at rest = Some (ws, key, r)"
    and "\<forall>j<length pre. spaced_queueKey_at (drop j (pre @ rest)) = None"
    and "list_all (\<lambda>c. \<not> is_line_terminator c) pre"
  shows "lazy_prefix acc (pre @ rest) = Some (acc @ pre, ws, key, r)"
  using assms(2,3)
proof (induction pre arbitrary: acc)
  case Nil
  with assms(1) show ?case
    by (cases rest) simp_all
next
  case (Cons c pre)
  from Cons.prems(1) have "spaced_queueKey_at (drop 0 ((c # pre) @ rest)) = None"
    by blast
  then have none: "spaced_queueKey_at (c # pre @ rest) = None"
    by simp
  have first: "\<forall>j<length pre. spaced_queueKey_at (drop j (pre @ rest)) = None"
  proof (intro allI impI)
    fix j assume "j < length pre"
    then have "Suc j < length (c # pre)" by simp
    with Cons.prems(1) have "spaced_queueKey_at (drop (Suc j) ((c # pre) @ rest)) = None"
      by blast
    then show "spaced_queueKey_at (drop j (pre @ rest)) = None" by simp
  qed
  from Cons.prems(2) have nlt: "\<not> is_line_terminator c"
    and rest: "list_all (\<lambda>c. \<not> is_line_terminator c) pre"
    by simp_all
  have "lazy_prefix (acc @ [c]) (pre @ rest) = Some ((acc @ [c]) @ pre, ws, key, r)"
    using first rest by (rule Cons.IH)
  with none nlt show ?case by simp
qed

section \<open>Properties of the remote call\<close>


section \<open>Notions used in the statements on the controller\<close>

text \<open>The condition of line 312: both credentials are set.\<close>

definition has_credentials :: "state \<Rightarrow> bool" where
  "has_credentials st \<longleftrightarrow>
     apiToken (plugin_settings st) \<noteq> [] \<and> orgId (plugin_settings st) \<noteq> []"

text \<open>
  The condition of line 310 on the state in which a pass starts: the new-task pattern
  matches on the line of the cursor, and that line does not hold \<open>](\<close>.
\<close>

definition new_task_detected :: "state \<Rightarrow> bool" where
  "new_task_detected st \<longleftrightarrow>
     (let currentLine = line_or_undefined (split_nl (doc st)) (pos_line (cursor st))
      in newTaskRegex_exec currentLine \<noteq> None \<and> \<not> js_includes currentLine '']('')"

text \<open>States and modal results for the examples.\<close>

definition example_state :: "string \<Rightarrow> string \<Rightarrow> string \<Rightarrow> nat \<Rightarrow> nat \<Rightarrow> state" where
  "example_state token org d l c =
     \<lparr>plugin_settings = \<lparr>trackerBaseURL = ''BASE/'', apiToken = token, orgId = org,
        defaultDescription = [], defaultAssignees = []\<rparr>,
      isProcessing = False, doc = d, cursor = \<lparr>pos_line = l, pos_ch = c\<rparr>,
      pending = [], modals = [], notices = [], editor_calls = []\<rparr>"

definition example_data :: "bool \<Rightarrow> TaskCreationData" where
  "example_data ok =
     \<lparr>confirmed = ok, summary = ''Ship it'', description = [], deadline = [], tags = [],
      assignee = []\<rparr>"

text \<open>
  Between \<open>st\<close> and \<open>st'\<close> nothing was written to the editor, the document and the
  cursor are the same, the lock is free and no pass is waiting.
\<close>

definition released_untouched :: "state \<Rightarrow> state \<Rightarrow> bool" where
  "released_untouched st st' \<longleftrightarrow>
     doc st' = doc st \<and> cursor st' = cursor st \<and> editor_calls st' = editor_calls st \<and>
     \<not> isProcessing st' \<and> pending st' = []"

text \<open>At most one pass is waiting, and the lock is held exactly while one is.\<close>

definition single_pipeline :: "state \<Rightarrow> bool" where
  "single_pipeline st \<longleftrightarrow>
     length (pending st) \<le> 1 \<and> (isProcessing st \<longleftrightarrow> pending st \<noteq> [])"

section \<open>Properties of the controller\<close>

lemma finish_pass_lock [simp]:
  "isProcessing (finish_pass c0 content updated st) = False"
  "pending (finish_pass c0 content updated st) = pending st"
  "modals (finish_pass c0 content updated st) = modals st"
  by (simp_all add: finish_pass_def Let_def)

lemma processText_detected:
  assumes "\<not> isProcessing st" and "new_task_detected st" and "has_credentials st"
  shows "\<exists>p m. processText st =
     st\<lparr>isProcessing := True, modals := modals st @ [m], pending := pending st @ [AwaitConfirmation p]\<rparr>"
  using assms
  by (auto simp: processText_def new_task_detected_def has_credentials_def Let_def
        split: option.splits)

lemma processText_no_credentials:
  assumes "\<not> isProcessing st" and "new_task_detected st" and "\<not> has_credentials st"
  shows "processText st =
     st\<lparr>isProcessing := False,
        notices := notices st @ [''Please configure API Token and Organization ID in settings'']\<rparr>"
  using assms
  by (auto simp: processText_def new_task_detected_def has_credentials_def Let_def
        split: option.splits)

lemma processText_single:
  assumes "single_pipeline st"
  shows "single_pipeline (processText st)"
  using assms
  by (auto simp: processText_def single_pipeline_def Let_def split: option.splits)

lemma step_single:
  assumes "single_pipeline st"
  shows "single_pipeline (step e st)"
proof (cases e)
  case (EditorChange d c)
  have "single_pipeline (st\<lparr>doc := d, cursor := c\<rparr>)"
    using assms by (simp add: single_pipeline_def)
  then show ?thesis
    using EditorChange processText_single [of "st\<lparr>doc := d, cursor := c\<rparr>"]
    by (simp add: editor_change_def)
next
  case Command
  with assms show ?thesis by (simp add: processText_single)
next
  case (Confirmation i r)
  with assms show ?thesis
    by (cases "pending st")
      (auto simp: single_pipeline_def after_confirmation_def remove_nth_def
        split: suspended.splits)
next
  case (Creation i outcome)
  with assms show ?thesis
    by (cases "pending st"; cases "createTask outcome")
      (auto simp: single_pipeline_def after_creation_def remove_nth_def Let_def
        split: suspended.splits sum.splits)
qed

lemma run_single: "single_pipeline st \<Longrightarrow> single_pipeline (run evs st)"
  by (induction evs arbitrary: st) (simp_all add: step_single)

section \<open>What the patterns match\<close>












section \<open>Replacing by a text without dollars\<close>




section \<open>The normalisation pass at a token\<close>

lemma normalise_token:
  fixes pre post taskId content base :: string
  defines "updatedContent \<equiv> pre @ CHR ''@'' # taskId @ CHR '' '' # post"
  assumes "is_taskId taskId"
  shows "normalise base content updatedContent =
     replace_taskRegex (normalise_callback base content) 0 pre @
     normalise_callback base content taskId (length pre) @
     replace_taskRegex (normalise_callback base content)
       (length pre + length taskId + 1) (CHR '' '' # post)"
proof -
  let ?f = "normalise_callback base content"
  have m: "taskRegex_at (CHR ''@'' # taskId @ CHR '' '' # post) = Some (taskId, CHR '' '' # post)"
    using assms(2) by (rule taskRegex_at_taskId)
  have "normalise base content updatedContent =
      replace_taskRegex ?f 0 pre @
      replace_taskRegex ?f (length pre) (CHR ''@'' # taskId @ CHR '' '' # post)"
    unfolding normalise_def updatedContent_def
    using replace_taskRegex_cut [OF is_cut_at, of _ 0 pre] by simp
  also have "replace_taskRegex ?f (length pre) (CHR ''@'' # taskId @ CHR '' '' # post) =
      ?f taskId (length pre) @
      replace_taskRegex ?f (length pre + length taskId + 1) (CHR '' '' # post)"
    using m by simp
  finally show ?thesis .
qed

lemma if_differs: "x = (if c \<noteq> w then w else d) \<Longrightarrow> c \<noteq> w \<Longrightarrow> x = w"
  by simp

text \<open>
  A document for the examples: the rewrite of its first line moves the token of its
  second line thirteen places to the right.
\<close>

definition stale_example :: string where
  "stale_example = ''a @Q '' @ nl # ''@X-1 abcdef](''"

definition stale_example_pass :: pass where
  "stale_example_pass =
     \<lparr>pass_cursor = \<lparr>pos_line = 0, pos_ch = 5\<rparr>, pass_content = stale_example,
      pass_lines = [''a @Q '', ''@X-1 abcdef](''], pass_currentLine = ''a @Q '',
      pass_fullMatch = ''a @Q'', pass_taskSummary = ''a'', pass_queueKey = ''Q''\<rparr>"

section \<open>The pass run twice\<close>














text \<open>No match of the bare-reference pattern starts inside \<open>xs\<close>, in front of \<open>ys\<close>.\<close>

definition quiet :: "string \<Rightarrow> string \<Rightarrow> bool" where
  "quiet xs ys \<longleftrightarrow> (\<forall>j<length xs. taskRegex_at (drop j (xs @ ys)) = None)"

lemma quiet_Nil [simp]: "quiet [] ys"
  by (simp add: quiet_def)









































section \<open>Properties of the sanitizer\<close>

text \<open>
  A run of characters of one class, followed by a text that does not start with a
  character of the class, is what \<open>takeWhile\<close> takes and \<open>dropWhile\<close> drops.
\<close>

lemma run_split:
  "list_all P xs \<Longrightarrow> takeWhile P ys = [] \<Longrightarrow>
     takeWhile P (xs @ ys) = xs \<and> dropWhile P (xs @ ys) = ys"
proof (induction xs)
  case Nil
  then show ?case
    using takeWhile_dropWhile_id [of P ys] by simp
next
  case (Cons x xs)
  then show ?case by simp
qed

lemma run_none:
  "xs \<noteq> [] \<Longrightarrow> list_all (\<lambda>c. \<not> P c) xs \<Longrightarrow> takeWhile P (xs @ ys) = []"
  by (cases xs) simp_all

lemma strip_spaces1_run:
  assumes "ws \<noteq> []" and "list_all is_space ws" and "takeWhile is_space r = []"
  shows "strip_spaces1 (ws @ r) = Some r"
  using run_split [OF assms(2,3)] assms(1) by (simp add: strip_spaces1_def)

lemma strip_ordered_marker:
  assumes "ds \<noteq> []" and "list_all is_digit ds"
    and "ws \<noteq> []" and "list_all is_space ws" and "takeWhile is_space r = []"
  shows "strip_ordered (ds @ CHR ''.'' # ws @ r) = r"
proof -
  have "\<not> is_digit CHR ''.''" by (simp add: is_digit_def)
  then have "takeWhile is_digit (CHR ''.'' # ws @ r) = []" by simp
  from run_split [OF assms(2) this] assms(1) strip_spaces1_run [OF assms(3-5)]
  show ?thesis by (simp add: strip_ordered_def)
qed

lemma strip_bullet_marker:
  assumes "c \<in> set ''-*+''" and "ws \<noteq> []" and "list_all is_space ws"
    and "takeWhile is_space r = []"
  shows "strip_bullet (c # ws @ r) = r"
  using assms(1) strip_spaces1_run [OF assms(2-4)] by (simp add: strip_bullet_def)

lemma strip_quote_marker:
  assumes "ws \<noteq> []" and "list_all is_space ws" and "takeWhile is_space r = []"
  shows "strip_quote (CHR ''>'' # ws @ r) = r"
  using strip_spaces1_run [OF assms] by (simp add: strip_quote_def)

lemma replace_global_skip:
  assumes "\<And>c r. c \<in> set a \<Longrightarrow> m (c # r) = None"
  shows "replace_global m (a @ s) = a @ replace_global m s"
  using assms by (induction a) simp_all

lemma replace_global_match:
  assumes "m (x @ s) = Some (out, length x)" and "x \<noteq> []"
  shows "replace_global m (x @ s) = out @ replace_global m s"
proof -
  from assms(2) obtain c x' where x: "x = c # x'" by (cases x) auto
  with assms(1) show ?thesis by simp
qed

lemma replace_global_at:
  assumes "\<And>c r. c \<in> set a \<Longrightarrow> m (c # r) = None"
    and "m (x @ s) = Some (out, length x)" and "x \<noteq> []"
  shows "replace_global m (a @ x @ s) = a @ out @ replace_global m s"
  using replace_global_skip [of a m "x @ s"] replace_global_match [of m x s out] assms
  by simp

lemma replace_global_none:
  assumes "\<And>c r. c \<in> set s \<Longrightarrow> m (c # r) = None" and "m [] = None"
  shows "replace_global m s = s"
  using replace_global_skip [of s m "[]"] assms by simp

lemma emphasis_at_None: "\<not> is_marker c \<Longrightarrow> emphasis_at (c # r) = None"
  by (simp add: emphasis_at_def)

lemma code_at_None: "c \<noteq> CHR 0x60 \<Longrightarrow> code_at (c # r) = None"
  by (simp add: code_at_def)

lemma mdlink_at_None: "c \<noteq> CHR ''['' \<Longrightarrow> mdlink_at (c # r) = None"
  by (simp add: mdlink_at_def)

lemma tag_at_None: "c \<noteq> CHR ''<'' \<Longrightarrow> tag_at (c # r) = None"
  by (simp add: tag_at_def)

lemma emphasis_at_match:
  assumes "lead \<noteq> []" and "length lead \<le> 3" and "list_all is_marker lead"
    and "inner \<noteq> []" and "list_all (\<lambda>c. \<not> is_marker c) inner"
    and "trail \<noteq> []" and "length trail \<le> 3" and "list_all is_marker trail"
    and "takeWhile is_marker b = []"
  shows "emphasis_at ((lead @ inner @ trail) @ b) =
    Some (inner, length (lead @ inner @ trail))"
proof -
  have 1: "takeWhile is_marker (inner @ trail @ b) = []"
    using assms(4,5) by (rule run_none)
  have 2: "takeWhile (\<lambda>c. \<not> is_marker c) (trail @ b) = []"
    using assms(6,8) by (cases trail) simp_all
  note o = run_split [OF assms(3) 1]
  note i = run_split [OF assms(5) 2]
  note c = run_split [OF assms(8,9)]
  from o i c assms(1,2,4,6,7) show ?thesis
    by (simp add: emphasis_at_def Let_def min_def)
qed

lemma until_split:
  "c \<notin> set xs \<Longrightarrow> takeWhile (\<lambda>x. x \<noteq> c) (xs @ c # ys) = xs \<and>
     dropWhile (\<lambda>x. x \<noteq> c) (xs @ c # ys) = c # ys"
  by (induction xs) auto

lemma code_at_match:
  assumes "inner \<noteq> []" and "CHR 0x60 \<notin> set inner"
  shows "code_at ((CHR 0x60 # inner @ [CHR 0x60]) @ b) =
    Some (inner, length (CHR 0x60 # inner @ [CHR 0x60]))"
  using until_split [OF assms(2), of b] assms(1) by (simp add: code_at_def)

lemma mdlink_at_match:
  assumes "label \<noteq> []" and "CHR '']'' \<notin> set label" and "url \<noteq> []" and "CHR '')'' \<notin> set url"
  shows "mdlink_at ((CHR ''['' # label @ '']('' @ url @ '')'') @ b) =
    Some (label, length (CHR ''['' # label @ '']('' @ url @ '')''))"
  using until_split [OF assms(2), of "CHR ''('' # url @ CHR '')'' # b"]
    until_split [OF assms(4), of b] assms(1,3)
  by (simp add: mdlink_at_def)

lemma tag_at_match:
  assumes "inner \<noteq> []" and "CHR ''>'' \<notin> set inner"
  shows "tag_at ((CHR ''<'' # inner @ ''>'') @ b) = Some ([], length (CHR ''<'' # inner @ ''>''))"
  using until_split [OF assms(2), of b] assms(1) by (simp add: tag_at_def)

lemma dropWhile_all: "list_all P xs \<Longrightarrow> dropWhile P xs = []"
  by (simp add: list_all_iff)

lemma trim_spaces:
  assumes "list_all is_space ws" and "list_all is_space ws'"
    and "takeWhile is_space s = []" and "takeWhile is_space (rev s) = []"
  shows "trim (ws @ s @ ws') = s"
proof (cases "s = []")
  case True
  have "list_all is_space (ws @ ws')"
    using assms(1,2) by simp
  then have d: "dropWhile is_space (ws @ ws') = []"
    by (rule dropWhile_all)
  have e: "ws @ s @ ws' = ws @ ws'"
    using True by simp
  show ?thesis
    unfolding trim_def e d using True by simp
next
  case False
  with assms(3) have "takeWhile is_space (s @ ws') = []"
    by (cases s) (auto split: if_splits)
  from run_split [OF assms(1) this] have a: "dropWhile is_space (ws @ s @ ws') = s @ ws'"
    by simp
  have "list_all is_space (rev ws')"
    using assms(2) by (simp add: list_all_iff)
  from run_split [OF this assms(4)] have "dropWhile is_space (rev ws' @ rev s) = rev s"
    by simp
  with a show ?thesis
    by (simp add: trim_def)
qed


lemma cleanMarkdown_plain:
  assumes "list_all (\<lambda>c. c \<notin> set [CHR ''*'', CHR ''_'', CHR 0x60, CHR ''['', CHR ''<'']) plain"
    and "takeWhile is_digit plain = []"
    and "takeWhile (\<lambda>c. c \<in> set ''-+>'') plain = []"
    and "takeWhile is_space plain = []" and "takeWhile is_space (rev plain) = []"
  shows "cleanMarkdown plain = plain"
proof -
  from assms(1) have c: "\<And>c. c \<in> set plain \<Longrightarrow>
      \<not> is_marker c \<and> c \<noteq> CHR 0x60 \<and> c \<noteq> CHR ''['' \<and> c \<noteq> CHR ''<''"
    by (auto simp: list_all_iff is_marker_def)
  have 1: "strip_ordered plain = plain"
    using assms(2) by (simp add: strip_ordered_def)
  have 2: "strip_bullet plain = plain"
    using assms(3) c by (cases plain) (auto simp: strip_bullet_def is_marker_def split: if_splits)
  have 3: "replace_global emphasis_at plain = plain"
    using c by (intro replace_global_none emphasis_at_None) (simp_all add: emphasis_at_def)
  have 4: "replace_global code_at plain = plain"
    using c by (intro replace_global_none code_at_None) (simp_all add: code_at_def)
  have 5: "replace_global mdlink_at plain = plain"
    using c by (intro replace_global_none mdlink_at_None) (simp_all add: mdlink_at_def)
  have 6: "strip_quote plain = plain"
    using assms(3) by (cases plain) (auto simp: strip_quote_def split: if_splits)
  have 7: "replace_global tag_at plain = plain"
    using c by (intro replace_global_none tag_at_None) (simp_all add: tag_at_def)
  have 8: "trim plain = plain"
    using trim_spaces [of "[]" "[]" plain] assms(4,5) by simp
  show ?thesis
    unfolding cleanMarkdown_def 1 2 3 4 5 6 7 8 ..
qed

section \<open>Claims\<close>




text \<open>
  C2 (as amended). The pattern asks for an \<open>@\<close> before the queue key. On a line made
  of a text \<open>pre\<close> with no line terminator, white space, an \<open>@\<close>, a queue key of
  capitals, and a space, where the pattern matches at no earlier place of \<open>pre\<close> (this is
  the first occurrence), new-task detection returns that match: the preceding text is
  \<open>pre\<close>, the queue key is the key, and the matched text runs from the start of the line
  to the end of the key. A key with no \<open>@\<close> before it is not detected.
\<close>

theorem newTaskRegex_first_occurrence:
  fixes pre ws key post :: string
  defines "currentLine \<equiv> pre @ ws @ CHR ''@'' # key @ CHR '' '' # post"
  assumes "list_all is_space ws" and "key \<noteq> []" and "list_all is_upper key"
    and "list_all (\<lambda>c. \<not> is_line_terminator c) pre"
    and "\<forall>j<length pre. spaced_queueKey_at (drop j currentLine) = None"
  shows "newTaskRegex_exec currentLine = Some (pre @ ws @ CHR ''@'' # key, pre, key)"
proof -
  let ?rest = "ws @ CHR ''@'' # key @ CHR '' '' # post"
  have tail: "spaced_queueKey_at ?rest = Some (ws, key, CHR '' '' # post)"
    using assms(2-4) by (rule spaced_queueKey_at_key)
  have "lazy_prefix [] (pre @ ?rest) = Some ([] @ pre, ws, key, CHR '' '' # post)"
    using tail assms(6) assms(5) unfolding currentLine_def by (rule lazy_prefix_first)
  then show ?thesis
    unfolding currentLine_def by (cases "pre @ ?rest") simp_all
qed

text \<open>
  On the line \<open>some notes @TASKS \<close> the preceding text is \<open>some notes\<close> and the queue
  key is \<open>TASKS\<close>.
\<close>

theorem newTaskRegex_first_occurrence_witness:
  "list_all is_space '' '' \<and> ''TASKS'' \<noteq> [] \<and> list_all is_upper ''TASKS'' \<and>
   list_all (\<lambda>c. \<not> is_line_terminator c) ''some notes'' \<and>
   list_all (\<lambda>j. spaced_queueKey_at (drop j ''some notes @TASKS '') = None) [0..<length ''some notes''] \<and>
   newTaskRegex_exec ''some notes @TASKS '' = Some (''some notes @TASKS'', ''some notes'', ''TASKS'')"
proof -
  have h1: "list_all is_space '' ''" by code_simp
  have h2: "''TASKS'' \<noteq> []" by simp
  have h3: "list_all is_upper ''TASKS''" by code_simp
  have h4: "list_all (\<lambda>c. \<not> is_line_terminator c) ''some notes''" by code_simp
  have h5: "list_all (\<lambda>j. spaced_queueKey_at (drop j ''some notes @TASKS '') = None)
      [0..<length ''some notes'']"
    by code_simp
  have eq: "''some notes'' @ '' '' @ CHR ''@'' # ''TASKS'' @ CHR '' '' # [] = ''some notes @TASKS ''"
    by simp
  have h5': "\<forall>j<length ''some notes''.
      spaced_queueKey_at (drop j (''some notes'' @ '' '' @ CHR ''@'' # ''TASKS'' @ CHR '' '' # [])) = None"
    unfolding eq using h5 by (auto simp only: list_all_iff set_upt atLeastLessThan_iff)
  from newTaskRegex_first_occurrence [OF h1 h2 h3 h4 h5'] h1 h3 h4 h5
  show ?thesis by simp
qed

text \<open>
  C2 as the specification states it fails: on the line \<open>some notes TASKS \<close>, with no
  \<open>@\<close>, nothing is detected.
\<close>

theorem newTaskRegex_counterexample:
  "newTaskRegex_exec ''some notes TASKS '' = None \<and>
   newTaskRegex_exec ''some notes TASKS '' \<noteq> Some (''some notes TASKS'', ''some notes'', ''TASKS'')"
  by code_simp

text \<open>
  C7. The sanitizer is a total function (each global replacement is a recursion with
  its termination proof) that applies eight steps in this order. At the head of the
  text, digits, a dot and white space are stripped; then, at the head, one of
  \<open>-\<close>, \<open>*\<close>, \<open>+\<close> and the white space after it. Then, everywhere from left
  to right: one to three of \<open>*\<close> and \<open>_\<close>, a text without them, and one to three
  of them again give the text between them; a text between two backticks gives that
  text; a link \<open>[label](url)\<close> gives its label. Then, at the head, a \<open>>\<close> and the
  white space after it are stripped; then, everywhere, a tag \<open><...>\<close>; at last the
  white space at both ends. A text with none of \<open>*\<close>, \<open>_\<close>, backtick, \<open>[\<close>,
  \<open><\<close>, that starts with no digit, \<open>-\<close>, \<open>+\<close>, \<open>>\<close> or white space and ends
  with no white space, is left as it is. The specification's example holds. The seven
  examples after it are texts on which the order of two neighbouring steps shows: the
  last seven equations give what the two steps leave of each text when they are applied
  in the other order.
\<close>

theorem cleanMarkdown_steps:
  "cleanMarkdown input =
     trim (replace_global tag_at (strip_quote (replace_global mdlink_at
       (replace_global code_at (replace_global emphasis_at
         (strip_bullet (strip_ordered input))))))) \<and>
   (digits \<noteq> [] \<and> list_all is_digit digits \<and> ws1 \<noteq> [] \<and> list_all is_space ws1 \<and>
    takeWhile is_space r1 = [] \<longrightarrow>
      strip_ordered (digits @ CHR ''.'' # ws1 @ r1) = r1) \<and>
   (bullet \<in> set ''-*+'' \<and> ws2 \<noteq> [] \<and> list_all is_space ws2 \<and> takeWhile is_space r2 = [] \<longrightarrow>
      strip_bullet (bullet # ws2 @ r2) = r2) \<and>
   (list_all (\<lambda>c. \<not> is_marker c) a3 \<and>
    lead \<noteq> [] \<and> length lead \<le> 3 \<and> list_all is_marker lead \<and>
    inner3 \<noteq> [] \<and> list_all (\<lambda>c. \<not> is_marker c) inner3 \<and>
    trail \<noteq> [] \<and> length trail \<le> 3 \<and> list_all is_marker trail \<and>
    takeWhile is_marker b3 = [] \<longrightarrow>
      replace_global emphasis_at (a3 @ lead @ inner3 @ trail @ b3) =
        a3 @ inner3 @ replace_global emphasis_at b3) \<and>
   (CHR 0x60 \<notin> set a4 \<and> inner4 \<noteq> [] \<and> CHR 0x60 \<notin> set inner4 \<longrightarrow>
      replace_global code_at (a4 @ CHR 0x60 # inner4 @ CHR 0x60 # b4) =
        a4 @ inner4 @ replace_global code_at b4) \<and>
   (CHR ''['' \<notin> set a5 \<and> label \<noteq> [] \<and> CHR '']'' \<notin> set label \<and>
    url \<noteq> [] \<and> CHR '')'' \<notin> set url \<longrightarrow>
      replace_global mdlink_at (a5 @ CHR ''['' # label @ '']('' @ url @ CHR '')'' # b5) =
        a5 @ label @ replace_global mdlink_at b5) \<and>
   (ws6 \<noteq> [] \<and> list_all is_space ws6 \<and> takeWhile is_space r6 = [] \<longrightarrow>
      strip_quote (CHR ''>'' # ws6 @ r6) = r6) \<and>
   (CHR ''<'' \<notin> set a7 \<and> inner7 \<noteq> [] \<and> CHR ''>'' \<notin> set inner7 \<longrightarrow>
      replace_global tag_at (a7 @ CHR ''<'' # inner7 @ CHR ''>'' # b7) =
        a7 @ replace_global tag_at b7) \<and>
   (list_all is_space ws8 \<and> list_all is_space ws9 \<and>
    takeWhile is_space s8 = [] \<and> takeWhile is_space (rev s8) = [] \<longrightarrow>
      trim (ws8 @ s8 @ ws9) = s8) \<and>
   (list_all (\<lambda>c. c \<notin> set [CHR ''*'', CHR ''_'', CHR 0x60, CHR ''['', CHR ''<'']) plain \<and>
    takeWhile is_digit plain = [] \<and> takeWhile (\<lambda>c. c \<in> set ''-+>'') plain = [] \<and>
    takeWhile is_space plain = [] \<and> takeWhile is_space (rev plain) = [] \<longrightarrow>
      cleanMarkdown plain = plain) \<and>
   cleanMarkdown ''1. **Do** the `thing` [here](http://x)'' = ''Do the thing here'' \<and>
   cleanMarkdown ''1. - x'' = ''x'' \<and>
   cleanMarkdown ''* *a*'' = ''a'' \<and>
   cleanMarkdown ''`_`a_'' = ''``a'' \<and>
   cleanMarkdown ''[`a](`b)'' = ''a'' \<and>
   cleanMarkdown ''[> a](u)'' = ''a'' \<and>
   cleanMarkdown ''<i>> x'' = ''> x'' \<and>
   cleanMarkdown ''<b> x '' = ''x'' \<and>
   strip_ordered (strip_bullet ''1. - x'') = ''- x'' \<and>
   strip_bullet (replace_global emphasis_at ''* *a*'') = '' a*'' \<and>
   replace_global emphasis_at (replace_global code_at ''`_`a_'') = ''a'' \<and>
   replace_global code_at (replace_global mdlink_at ''[`a](`b)'') = ''`a'' \<and>
   replace_global mdlink_at (strip_quote ''[> a](u)'') = ''> a'' \<and>
   strip_quote (replace_global tag_at ''<i>> x'') = ''x'' \<and>
   replace_global tag_at (trim ''<b> x '') = '' x''"
proof (intro conjI impI; (elim conjE)?)
  show "cleanMarkdown input =
     trim (replace_global tag_at (strip_quote (replace_global mdlink_at
       (replace_global code_at (replace_global emphasis_at
         (strip_bullet (strip_ordered input)))))))"
    by (simp add: cleanMarkdown_def)
next
  assume "digits \<noteq> []" "list_all is_digit digits" "ws1 \<noteq> []" "list_all is_space ws1"
    "takeWhile is_space r1 = []"
  then show "strip_ordered (digits @ CHR ''.'' # ws1 @ r1) = r1"
    by (rule strip_ordered_marker)
next
  assume "bullet \<in> set ''-*+''" "ws2 \<noteq> []" "list_all is_space ws2" "takeWhile is_space r2 = []"
  then show "strip_bullet (bullet # ws2 @ r2) = r2"
    by (rule strip_bullet_marker)
next
  assume a: "list_all (\<lambda>c. \<not> is_marker c) a3"
    and m: "lead \<noteq> []" "length lead \<le> 3" "list_all is_marker lead"
      "inner3 \<noteq> []" "list_all (\<lambda>c. \<not> is_marker c) inner3"
      "trail \<noteq> []" "length trail \<le> 3" "list_all is_marker trail"
      "takeWhile is_marker b3 = []"
  have "replace_global emphasis_at (a3 @ (lead @ inner3 @ trail) @ b3) =
      a3 @ inner3 @ replace_global emphasis_at b3"
  proof (rule replace_global_at)
    show "emphasis_at (c # r) = None" if "c \<in> set a3" for c r
      using that a by (intro emphasis_at_None) (simp add: list_all_iff)
    show "emphasis_at ((lead @ inner3 @ trail) @ b3) =
        Some (inner3, length (lead @ inner3 @ trail))"
      using m by (rule emphasis_at_match)
    show "lead @ inner3 @ trail \<noteq> []"
      using m(1) by simp
  qed
  then show "replace_global emphasis_at (a3 @ lead @ inner3 @ trail @ b3) =
        a3 @ inner3 @ replace_global emphasis_at b3"
    by simp
next
  assume a: "CHR 0x60 \<notin> set a4" and m: "inner4 \<noteq> []" "CHR 0x60 \<notin> set inner4"
  have "replace_global code_at (a4 @ (CHR 0x60 # inner4 @ [CHR 0x60]) @ b4) =
      a4 @ inner4 @ replace_global code_at b4"
  proof (rule replace_global_at)
    show "code_at (c # r) = None" if "c \<in> set a4" for c r
      using that a by (intro code_at_None) auto
    show "code_at ((CHR 0x60 # inner4 @ [CHR 0x60]) @ b4) =
        Some (inner4, length (CHR 0x60 # inner4 @ [CHR 0x60]))"
      using m by (rule code_at_match)
    show "CHR 0x60 # inner4 @ [CHR 0x60] \<noteq> []"
      by simp
  qed
  then show "replace_global code_at (a4 @ CHR 0x60 # inner4 @ CHR 0x60 # b4) =
        a4 @ inner4 @ replace_global code_at b4"
    by simp
next
  assume a: "CHR ''['' \<notin> set a5"
    and m: "label \<noteq> []" "CHR '']'' \<notin> set label" "url \<noteq> []" "CHR '')'' \<notin> set url"
  have "replace_global mdlink_at (a5 @ (CHR ''['' # label @ '']('' @ url @ '')'') @ b5) =
      a5 @ label @ replace_global mdlink_at b5"
  proof (rule replace_global_at)
    show "mdlink_at (c # r) = None" if "c \<in> set a5" for c r
      using that a by (intro mdlink_at_None) auto
    show "mdlink_at ((CHR ''['' # label @ '']('' @ url @ '')'') @ b5) =
        Some (label, length (CHR ''['' # label @ '']('' @ url @ '')''))"
      using m by (rule mdlink_at_match)
    show "CHR ''['' # label @ '']('' @ url @ '')'' \<noteq> []"
      by simp
  qed
  then show "replace_global mdlink_at (a5 @ CHR ''['' # label @ '']('' @ url @ CHR '')'' # b5) =
        a5 @ label @ replace_global mdlink_at b5"
    by simp
next
  assume "ws6 \<noteq> []" "list_all is_space ws6" "takeWhile is_space r6 = []"
  then show "strip_quote (CHR ''>'' # ws6 @ r6) = r6"
    by (rule strip_quote_marker)
next
  assume a: "CHR ''<'' \<notin> set a7" and m: "inner7 \<noteq> []" "CHR ''>'' \<notin> set inner7"
  have "replace_global tag_at (a7 @ (CHR ''<'' # inner7 @ ''>'') @ b7) =
      a7 @ [] @ replace_global tag_at b7"
  proof (rule replace_global_at)
    show "tag_at (c # r) = None" if "c \<in> set a7" for c r
      using that a by (intro tag_at_None) auto
    show "tag_at ((CHR ''<'' # inner7 @ ''>'') @ b7) =
        Some ([], length (CHR ''<'' # inner7 @ ''>''))"
      using m by (rule tag_at_match)
    show "CHR ''<'' # inner7 @ ''>'' \<noteq> []"
      by simp
  qed
  then show "replace_global tag_at (a7 @ CHR ''<'' # inner7 @ CHR ''>'' # b7) =
        a7 @ replace_global tag_at b7"
    by simp
next
  assume "list_all is_space ws8" "list_all is_space ws9"
    "takeWhile is_space s8 = []" "takeWhile is_space (rev s8) = []"
  then show "trim (ws8 @ s8 @ ws9) = s8"
    by (rule trim_spaces)
next
  assume "list_all (\<lambda>c. c \<notin> set [CHR ''*'', CHR ''_'', CHR 0x60, CHR ''['', CHR ''<'']) plain"
    "takeWhile is_digit plain = []" "takeWhile (\<lambda>c. c \<in> set ''-+>'') plain = []"
    "takeWhile is_space plain = []" "takeWhile is_space (rev plain) = []"
  then show "cleanMarkdown plain = plain"
    by (rule cleanMarkdown_plain)
next
  show "cleanMarkdown ''1. **Do** the `thing` [here](http://x)'' = ''Do the thing here''"
    by code_simp
  show "cleanMarkdown ''1. - x'' = ''x''" by code_simp
  show "cleanMarkdown ''* *a*'' = ''a''" by code_simp
  show "cleanMarkdown ''`_`a_'' = ''``a''" by code_simp
  show "cleanMarkdown ''[`a](`b)'' = ''a''" by code_simp
  show "cleanMarkdown ''[> a](u)'' = ''a''" by code_simp
  show "cleanMarkdown ''<i>> x'' = ''> x''" by code_simp
  show "cleanMarkdown ''<b> x '' = ''x''" by code_simp
  show "strip_ordered (strip_bullet ''1. - x'') = ''- x''" by code_simp
  show "strip_bullet (replace_global emphasis_at ''* *a*'') = '' a*''" by code_simp
  show "replace_global emphasis_at (replace_global code_at ''`_`a_'') = ''a''" by code_simp
  show "replace_global code_at (replace_global mdlink_at ''[`a](`b)'') = ''`a''" by code_simp
  show "replace_global mdlink_at (strip_quote ''[> a](u)'') = ''> a''" by code_simp
  show "strip_quote (replace_global tag_at ''<i>> x'') = ''x''" by code_simp
  show "replace_global tag_at (trim ''<b> x '') = '' x''" by code_simp
qed

text \<open>Each step on an example, and a plain text.\<close>

theorem cleanMarkdown_steps_witness:
  "strip_ordered ''12. x'' = ''x'' \<and>
   strip_bullet ''+  x'' = ''x'' \<and>
   replace_global emphasis_at ''a **b** c'' = ''a b c'' \<and>
   replace_global code_at ''a `b` c'' = ''a b c'' \<and>
   replace_global mdlink_at ''a [b](u) c'' = ''a b c'' \<and>
   strip_quote ''> x'' = ''x'' \<and>
   replace_global tag_at ''a <br> c'' = ''a  c'' \<and>
   trim '' x y  '' = ''x y'' \<and>
   cleanMarkdown ''Do the thing here'' = ''Do the thing here''"
proof -
  note t = cleanMarkdown_steps [where digits = "''12''" and ?ws1.0 = "'' ''" and ?r1.0 = "''x''"
      and bullet = "CHR ''+''" and ?ws2.0 = "''  ''" and ?r2.0 = "''x''"
      and ?a3.0 = "''a ''" and lead = "''**''" and ?inner3.0 = "''b''" and trail = "''**''"
      and ?b3.0 = "'' c''"
      and ?a4.0 = "''a ''" and ?inner4.0 = "''b''" and ?b4.0 = "'' c''"
      and ?a5.0 = "''a ''" and label = "''b''" and url = "''u''" and ?b5.0 = "'' c''"
      and ?ws6.0 = "'' ''" and ?r6.0 = "''x''"
      and ?a7.0 = "''a ''" and ?inner7.0 = "''br''" and ?b7.0 = "'' c''"
      and ?ws8.0 = "'' ''" and ?s8.0 = "''x y''" and ?ws9.0 = "''  ''"
      and plain = "''Do the thing here''" and input = "[]"]
  have h1: "''12'' \<noteq> [] \<and> list_all is_digit ''12'' \<and> '' '' \<noteq> [] \<and> list_all is_space '' '' \<and>
      takeWhile is_space ''x'' = []"
    by code_simp
  have h2: "CHR ''+'' \<in> set ''-*+'' \<and> ''  '' \<noteq> [] \<and> list_all is_space ''  '' \<and>
      takeWhile is_space ''x'' = []"
    by code_simp
  have h3: "list_all (\<lambda>c. \<not> is_marker c) ''a '' \<and>
      ''**'' \<noteq> [] \<and> length ''**'' \<le> 3 \<and> list_all is_marker ''**'' \<and>
      ''b'' \<noteq> [] \<and> list_all (\<lambda>c. \<not> is_marker c) ''b'' \<and>
      ''**'' \<noteq> [] \<and> length ''**'' \<le> 3 \<and> list_all is_marker ''**'' \<and>
      takeWhile is_marker '' c'' = []"
    by code_simp
  have h4: "CHR 0x60 \<notin> set ''a '' \<and> ''b'' \<noteq> [] \<and> CHR 0x60 \<notin> set ''b''"
    by simp
  have h5: "CHR ''['' \<notin> set ''a '' \<and> ''b'' \<noteq> [] \<and> CHR '']'' \<notin> set ''b'' \<and>
      ''u'' \<noteq> [] \<and> CHR '')'' \<notin> set ''u''"
    by simp
  have h6: "'' '' \<noteq> [] \<and> list_all is_space '' '' \<and> takeWhile is_space ''x'' = []"
    by code_simp
  have h7: "CHR ''<'' \<notin> set ''a '' \<and> ''br'' \<noteq> [] \<and> CHR ''>'' \<notin> set ''br''"
    by simp
  have h8: "list_all is_space '' '' \<and> list_all is_space ''  '' \<and>
      takeWhile is_space ''x y'' = [] \<and> takeWhile is_space (rev ''x y'') = []"
    by code_simp
  have h9: "list_all (\<lambda>c. c \<notin> set [CHR ''*'', CHR ''_'', CHR 0x60, CHR ''['', CHR ''<''])
        ''Do the thing here'' \<and>
      takeWhile is_digit ''Do the thing here'' = [] \<and>
      takeWhile (\<lambda>c. c \<in> set ''-+>'') ''Do the thing here'' = [] \<and>
      takeWhile is_space ''Do the thing here'' = [] \<and>
      takeWhile is_space (rev ''Do the thing here'') = []"
    by code_simp
  have e3: "replace_global emphasis_at '' c'' = '' c''" by code_simp
  have e4: "replace_global code_at '' c'' = '' c''" by code_simp
  have e5: "replace_global mdlink_at '' c'' = '' c''" by code_simp
  have e7: "replace_global tag_at '' c'' = '' c''" by code_simp
  from t [THEN conjunct2, THEN conjunct1] h1 have "strip_ordered (''12'' @ CHR ''.'' # '' '' @ ''x'') = ''x''" by (rule mp)
  then have 1: "strip_ordered ''12. x'' = ''x''" by simp
  from t [THEN conjunct2, THEN conjunct2, THEN conjunct1] h2 have "strip_bullet (CHR ''+'' # ''  '' @ ''x'') = ''x''" by (rule mp)
  then have 2: "strip_bullet ''+  x'' = ''x''" by simp
  from t [THEN conjunct2, THEN conjunct2, THEN conjunct2, THEN conjunct1] h3 have "replace_global emphasis_at (''a '' @ ''**'' @ ''b'' @ ''**'' @ '' c'') =
      ''a '' @ ''b'' @ replace_global emphasis_at '' c''" by (rule mp)
  then have 3: "replace_global emphasis_at ''a **b** c'' = ''a b c''"
    unfolding e3 by simp
  from t [THEN conjunct2, THEN conjunct2, THEN conjunct2, THEN conjunct2, THEN conjunct1] h4 have "replace_global code_at (''a '' @ CHR 0x60 # ''b'' @ CHR 0x60 # '' c'') =
      ''a '' @ ''b'' @ replace_global code_at '' c''" by (rule mp)
  then have 4: "replace_global code_at ''a `b` c'' = ''a b c''"
    unfolding e4 by simp
  from t [THEN conjunct2, THEN conjunct2, THEN conjunct2, THEN conjunct2, THEN conjunct2, THEN conjunct1] h5 have "replace_global mdlink_at (''a '' @ CHR ''['' # ''b'' @ '']('' @ ''u'' @ CHR '')'' # '' c'') =
      ''a '' @ ''b'' @ replace_global mdlink_at '' c''" by (rule mp)
  then have 5: "replace_global mdlink_at ''a [b](u) c'' = ''a b c''"
    unfolding e5 by simp
  from t [THEN conjunct2, THEN conjunct2, THEN conjunct2, THEN conjunct2, THEN conjunct2, THEN conjunct2, THEN conjunct1] h6 have "strip_quote (CHR ''>'' # '' '' @ ''x'') = ''x''" by (rule mp)
  then have 6: "strip_quote ''> x'' = ''x''" by simp
  from t [THEN conjunct2, THEN conjunct2, THEN conjunct2, THEN conjunct2, THEN conjunct2, THEN conjunct2, THEN conjunct2, THEN conjunct1] h7 have "replace_global tag_at (''a '' @ CHR ''<'' # ''br'' @ CHR ''>'' # '' c'') =
      ''a '' @ replace_global tag_at '' c''" by (rule mp)
  then have 7: "replace_global tag_at ''a <br> c'' = ''a  c''"
    unfolding e7 by simp
  from t [THEN conjunct2, THEN conjunct2, THEN conjunct2, THEN conjunct2, THEN conjunct2, THEN conjunct2, THEN conjunct2, THEN conjunct2, THEN conjunct1] h8 have "trim ('' '' @ ''x y'' @ ''  '') = ''x y''" by (rule mp)
  then have 8: "trim '' x y  '' = ''x y''" by simp
  from t [THEN conjunct2, THEN conjunct2, THEN conjunct2, THEN conjunct2, THEN conjunct2, THEN conjunct2, THEN conjunct2, THEN conjunct2, THEN conjunct2, THEN conjunct1] h9 have 9: "cleanMarkdown ''Do the thing here'' = ''Do the thing here''" by (rule mp)
  from 1 2 3 4 5 6 7 8 9 show ?thesis by (intro conjI)
qed




text \<open>
  C3. When a pass that has detected a new-task mention ends without a successful
  creation (the credentials are missing, the user cancels or dismisses the modal, or
  \<open>createTask\<close> fails, whatever it throws: another status than 201, a transport
  error, a response from which no task id can be read), nothing has been written to the
  editor, the document is the text read at the start of the pass, and the lock is free.
\<close>

theorem failed_pass_leaves_document:
  assumes "\<not> isProcessing st" and "pending st = []" and "new_task_detected st"
  shows "(\<not> has_credentials st \<longrightarrow> released_untouched st (processText st)) \<and>
    (has_credentials st \<and> \<not> confirmed result \<longrightarrow>
       released_untouched st (run [Confirmation 0 result] (processText st))) \<and>
    (has_credentials st \<and> confirmed result \<and> fst (createTask outcome) = Inl e \<longrightarrow>
       released_untouched st (run [Confirmation 0 result, Creation 0 outcome] (processText st)))"
proof (intro conjI impI)
  assume "\<not> has_credentials st"
  with assms show "released_untouched st (processText st)"
    by (simp add: processText_no_credentials released_untouched_def)
next
  assume a: "has_credentials st \<and> \<not> confirmed result"
  with assms obtain p m where "processText st =
     st\<lparr>isProcessing := True, modals := modals st @ [m], pending := pending st @ [AwaitConfirmation p]\<rparr>"
    using processText_detected by blast
  with a assms(2) show "released_untouched st (run [Confirmation 0 result] (processText st))"
    by (simp add: released_untouched_def after_confirmation_def remove_nth_def)
next
  assume a: "has_credentials st \<and> confirmed result \<and> fst (createTask outcome) = Inl e"
  with assms obtain p m where "processText st =
     st\<lparr>isProcessing := True, modals := modals st @ [m], pending := pending st @ [AwaitConfirmation p]\<rparr>"
    using processText_detected by blast
  with a assms(2)
  show "released_untouched st (run [Confirmation 0 result, Creation 0 outcome] (processText st))"
    by (cases "createTask outcome")
      (simp add: released_untouched_def after_confirmation_def after_creation_def remove_nth_def)
qed

theorem failed_pass_leaves_document_witness:
  "released_untouched (example_state [] [] ''some notes @TASKS '' 0 18)
     (processText (example_state [] [] ''some notes @TASKS '' 0 18)) \<and>
   released_untouched (example_state ''t'' ''o'' ''some notes @TASKS '' 0 18)
     (run [Confirmation 0 (example_data False)]
       (processText (example_state ''t'' ''o'' ''some notes @TASKS '' 0 18))) \<and>
   released_untouched (example_state ''t'' ''o'' ''some notes @TASKS '' 0 18)
     (run [Confirmation 0 (example_data True), Creation 0 (Responded 500 (NotJson []))]
       (processText (example_state ''t'' ''o'' ''some notes @TASKS '' 0 18))) \<and>
   released_untouched (example_state ''t'' ''o'' ''some notes @TASKS '' 0 18)
     (run [Confirmation 0 (example_data True), Creation 0 (Threw NotAnError)]
       (processText (example_state ''t'' ''o'' ''some notes @TASKS '' 0 18)))"
proof -
  let ?a = "example_state [] [] ''some notes @TASKS '' 0 18"
  let ?b = "example_state ''t'' ''o'' ''some notes @TASKS '' 0 18"
  have a: "\<not> isProcessing ?a" "pending ?a = []" "\<not> has_credentials ?a"
    by (simp_all add: example_state_def has_credentials_def)
  have b: "\<not> isProcessing ?b" "pending ?b = []" "has_credentials ?b"
    by (simp_all add: example_state_def has_credentials_def)
  have da: "new_task_detected ?a" by code_simp
  have db: "new_task_detected ?b" by code_simp
  have c: "\<not> confirmed (example_data False)" "confirmed (example_data True)"
    by (simp_all add: example_data_def)
  have f: "fst (createTask (Responded 500 (NotJson []))) = Inl (Error ''API request failed: 500'')"
    by code_simp
  from failed_pass_leaves_document [OF a(1,2) da] a(3)
  have 1: "released_untouched ?a (processText ?a)" by blast
  from failed_pass_leaves_document [OF b(1,2) db, of "example_data False"] b(3) c(1)
  have 2: "released_untouched ?b (run [Confirmation 0 (example_data False)] (processText ?b))"
    by blast
  from failed_pass_leaves_document [OF b(1,2) db, of "example_data True"
    "Responded 500 (NotJson [])" "Error ''API request failed: 500''"] b(3) c(2) f
  have 3: "released_untouched ?b
     (run [Confirmation 0 (example_data True), Creation 0 (Responded 500 (NotJson []))] (processText ?b))"
    by blast
  have g: "fst (createTask (Threw NotAnError)) = Inl NotAnError"
    by code_simp
  from failed_pass_leaves_document [OF b(1,2) db, of "example_data True"
    "Threw NotAnError" NotAnError] b(3) c(2) g
  have 4: "released_untouched ?b
     (run [Confirmation 0 (example_data True), Creation 0 (Threw NotAnError)] (processText ?b))"
    by blast
  from 1 2 3 4 show ?thesis by blast
qed

text \<open>
  C4. From a state with the lock free and no pass waiting, after any sequence of events
  at most one pass is waiting and the lock is held exactly while one is. An edit event
  does nothing but record the edit (no modal is opened, nothing is written) when the
  lock is held or the character before the cursor is not a single space; while the lock
  is held the command does nothing either: a second trigger is dropped, not queued.
\<close>

theorem entry_guard:
  fixes evs :: "event list" and st0 :: state
  defines "st \<equiv> run evs st0"
  assumes "\<not> isProcessing st0" and "pending st0 = []"
  shows "single_pipeline st \<and>
    (isProcessing st \<or> charBeforeCursor d c \<noteq> '' '' \<longrightarrow>
       step (EditorChange d c) st = st\<lparr>doc := d, cursor := c\<rparr>) \<and>
    (isProcessing st \<longrightarrow> step Command st = st)"
proof -
  have "single_pipeline st0"
    using assms(2,3) by (simp add: single_pipeline_def)
  then have "single_pipeline st"
    unfolding st_def by (rule run_single)
  moreover have "isProcessing st \<or> charBeforeCursor d c \<noteq> '' '' \<longrightarrow>
       step (EditorChange d c) st = st\<lparr>doc := d, cursor := c\<rparr>"
    by (auto simp: editor_change_def)
  moreover have "isProcessing st \<longrightarrow> step Command st = st"
    by (simp add: processText_def)
  ultimately show ?thesis by blast
qed

theorem entry_guard_witness:
  "single_pipeline (run [EditorChange ''some notes @TASKS '' \<lparr>pos_line = 0, pos_ch = 18\<rparr>]
      (example_state ''t'' ''o'' [] 0 0)) \<and>
   isProcessing (run [EditorChange ''some notes @TASKS '' \<lparr>pos_line = 0, pos_ch = 18\<rparr>]
      (example_state ''t'' ''o'' [] 0 0)) \<and>
   step (EditorChange ''some notes @TASKS @MORE '' \<lparr>pos_line = 0, pos_ch = 24\<rparr>)
     (run [EditorChange ''some notes @TASKS '' \<lparr>pos_line = 0, pos_ch = 18\<rparr>]
        (example_state ''t'' ''o'' [] 0 0)) =
     (run [EditorChange ''some notes @TASKS '' \<lparr>pos_line = 0, pos_ch = 18\<rparr>]
        (example_state ''t'' ''o'' [] 0 0))
       \<lparr>doc := ''some notes @TASKS @MORE '', cursor := \<lparr>pos_line = 0, pos_ch = 24\<rparr>\<rparr> \<and>
   step Command
     (run [EditorChange ''some notes @TASKS '' \<lparr>pos_line = 0, pos_ch = 18\<rparr>]
        (example_state ''t'' ''o'' [] 0 0)) =
     run [EditorChange ''some notes @TASKS '' \<lparr>pos_line = 0, pos_ch = 18\<rparr>]
        (example_state ''t'' ''o'' [] 0 0)"
proof -
  let ?s = "example_state ''t'' ''o'' [] 0 0"
  let ?r = "run [EditorChange ''some notes @TASKS '' \<lparr>pos_line = 0, pos_ch = 18\<rparr>] ?s"
  have h: "\<not> isProcessing ?s" "pending ?s = []"
    by (simp_all add: example_state_def)
  have p: "isProcessing ?r" by code_simp
  from entry_guard [OF h, of "[EditorChange ''some notes @TASKS '' \<lparr>pos_line = 0, pos_ch = 18\<rparr>]"
      "''some notes @TASKS @MORE ''" "\<lparr>pos_line = 0, pos_ch = 24\<rparr>"] p
  show ?thesis by blast
qed

text \<open>
  C5 (the code breaks it). The new line is built with \<open>currentLine.replace(fullMatch,
  replacement)\<close>, which reads the replacement as a template: on the line
  \<open>pay $$ @ABC \<close> the preceding text is \<open>pay $$\<close>, and with the task id \<open>ABC-99\<close>
  the line becomes \<open>pay $ [ABC-99](BASE/ABC-99) \<close>, not the preceding text, a space
  and the link.
\<close>

theorem dollar_summary_rewrite:
  "doc (run [EditorChange ''pay $$ @ABC '' \<lparr>pos_line = 0, pos_ch = 12\<rparr>,
        Confirmation 0 (example_data True),
        Creation 0 (Responded 201 (Json (JObj [(''key'', JStr ''ABC-99'')])))]
      (example_state ''t'' ''o'' [] 0 0)) = ''pay $ [ABC-99](BASE/ABC-99) '' \<and>
   newTaskRegex_exec ''pay $$ @ABC '' = Some (''pay $$ @ABC'', ''pay $$'', ''ABC'')"
  by code_simp




text \<open>
  C10. When \<open>createTask\<close> has succeeded and the rewritten text holds a token at some
  offset, the pass decides on it with the text read at its start: it looks for \<open>](\<close>
  in the three characters of that text before the offset, and for the link in the line
  of that text that holds the offset, although the offset was counted in the rewritten
  text.
\<close>

theorem guards_read_start_of_pass_text:
  fixes pre post taskId :: string and st :: state and p :: pass and k :: json
  defines "base \<equiv> trackerBaseURL (plugin_settings st)"
    and "content \<equiv> pass_content p"
    and "offset \<equiv> length pre"
  defines "newLine \<equiv>
     replace_string (pass_currentLine p) (pass_fullMatch p)
       ((if pass_taskSummary p \<noteq> [] then pass_taskSummary p @ '' '' else []) @
        link base (ToString k))"
  defines "updatedContent \<equiv> join_nl ((pass_lines p)[pos_line (pass_cursor p) := newLine])"
    and "written \<equiv>
     replace_taskRegex (normalise_callback base content) 0 pre @
     (if endsWith (js_slice content (offset - 3) offset) '']('' \<or>
         regex_test (urlPattern base taskId)
           (line_or_undefined (split_nl content)
              (length (split_nl (js_slice content 0 offset)) - 1))
      then CHR ''@'' # taskId
      else link base taskId) @
     replace_taskRegex (normalise_callback base content)
       (offset + length taskId + 1) (CHR '' '' # post)"
  assumes "createTask outcome = (Inr k, ns)"
    and "updatedContent = pre @ CHR ''@'' # taskId @ CHR '' '' # post"
    and "is_taskId taskId" and "regex_plain base"
  shows "doc (after_creation i p outcome st) =
     (if content \<noteq> written then written else doc st)"
proof -
  have "normalise base content updatedContent = written"
    unfolding written_def assms(8) offset_def
    using normalise_token [OF assms(9), of base content pre post]
    by (simp add: normalise_callback_def Let_def)
  then show ?thesis
    using assms(7)
    by (simp add: after_creation_def finish_pass_def Let_def base_def content_def
        updatedContent_def newLine_def)
qed

text \<open>
  In the example the token \<open>@X-1\<close> of the second line has nothing before it and no link
  in its line, and a pass on the rewritten text alone would link it; the pass that has
  rewritten the first line finds \<open>](\<close> in the old text at the new offset and leaves it.
\<close>

theorem guards_read_start_of_pass_text_witness:
  "pending (run [EditorChange stale_example \<lparr>pos_line = 0, pos_ch = 5\<rparr>,
        Confirmation 0 (example_data True)] (example_state ''t'' ''o'' [] 0 0)) =
     [AwaitCreation stale_example_pass] \<and>
   createTask (Responded 201 (Json (JObj [(''key'', JStr ''Q-7'')]))) = (Inr (JStr ''Q-7''), []) \<and>
   is_taskId ''X-1'' \<and> regex_plain ''BASE/'' \<and>
   doc (after_creation 0 stale_example_pass (Responded 201 (Json (JObj [(''key'', JStr ''Q-7'')])))
     (run [EditorChange stale_example \<lparr>pos_line = 0, pos_ch = 5\<rparr>,
        Confirmation 0 (example_data True)] (example_state ''t'' ''o'' [] 0 0))) =
     ''a [Q-7](BASE/Q-7) '' @ nl # ''@X-1 abcdef]('' \<and>
   normalise ''BASE/'' (''a [Q-7](BASE/Q-7) '' @ nl # ''@X-1 abcdef]('')
     (''a [Q-7](BASE/Q-7) '' @ nl # ''@X-1 abcdef]('') =
     ''a [Q-7](BASE/Q-7) '' @ nl # ''[X-1](BASE/X-1) abcdef](''"
proof -
  let ?st = "run [EditorChange stale_example \<lparr>pos_line = 0, pos_ch = 5\<rparr>,
        Confirmation 0 (example_data True)] (example_state ''t'' ''o'' [] 0 0)"
  let ?out = "Responded 201 (Json (JObj [(''key'', JStr ''Q-7'')]))"
  have b: "trackerBaseURL (plugin_settings ?st) = ''BASE/''" by code_simp
  have d: "doc ?st = stale_example" by code_simp
  have h0: "pending ?st = [AwaitCreation stale_example_pass]" by code_simp
  have h1: "createTask ?out = (Inr (JStr ''Q-7''), [])" by code_simp
  have h2: "join_nl ((pass_lines stale_example_pass)[pos_line (pass_cursor stale_example_pass) :=
      replace_string (pass_currentLine stale_example_pass) (pass_fullMatch stale_example_pass)
       ((if pass_taskSummary stale_example_pass \<noteq> [] then pass_taskSummary stale_example_pass @ '' '' else []) @
        link (trackerBaseURL (plugin_settings ?st)) (ToString (JStr ''Q-7'')))]) =
      (''a [Q-7](BASE/Q-7) '' @ [nl]) @ CHR ''@'' # ''X-1'' @ CHR '' '' # ''abcdef](''"
    unfolding b by code_simp
  have h3: "is_taskId ''X-1''" by code_simp
  have h4: "regex_plain (trackerBaseURL (plugin_settings ?st))" unfolding b by code_simp
  have h4': "regex_plain ''BASE/''" by code_simp
  note t = guards_read_start_of_pass_text [OF h1 h2 h3 h4, of 0]
  let ?base = "trackerBaseURL (plugin_settings ?st)"
  let ?content = "pass_content stale_example_pass"
  let ?pre = "''a [Q-7](BASE/Q-7) '' @ [nl]"
  let ?W = "replace_taskRegex (normalise_callback ?base ?content) 0 ?pre @
     (if endsWith (js_slice ?content (length ?pre - 3) (length ?pre)) '']('' \<or>
         regex_test (urlPattern ?base ''X-1'')
           (line_or_undefined (split_nl ?content)
              (length (split_nl (js_slice ?content 0 (length ?pre))) - 1))
      then CHR ''@'' # ''X-1''
      else link ?base ''X-1'') @
     replace_taskRegex (normalise_callback ?base ?content)
       (length ?pre + length ''X-1'' + 1) (CHR '' '' # ''abcdef]('')"
  from t have t': "doc (after_creation 0 stale_example_pass ?out ?st) =
      (if ?content \<noteq> ?W then ?W else doc ?st)" .
  have w: "?W = ''a [Q-7](BASE/Q-7) '' @ nl # ''@X-1 abcdef](''"
    by code_simp
  have c: "pass_content stale_example_pass \<noteq> ?W"
    unfolding w by code_simp
  have n: "normalise ''BASE/'' (''a [Q-7](BASE/Q-7) '' @ nl # ''@X-1 abcdef]('')
     (''a [Q-7](BASE/Q-7) '' @ nl # ''@X-1 abcdef]('') =
     ''a [Q-7](BASE/Q-7) '' @ nl # ''[X-1](BASE/X-1) abcdef](''"
    by code_simp
  have "doc (after_creation 0 stale_example_pass ?out ?st) = ?W"
    by (rule if_differs [OF t' c])
  from this w have "doc (after_creation 0 stale_example_pass ?out ?st) =
     ''a [Q-7](BASE/Q-7) '' @ nl # ''@X-1 abcdef](''"
    by (rule trans)
  with h0 h1 h3 h4' n show ?thesis by blast
qed




end
